theory Spec2Isabelle
  imports Main "HOL-Library.Word"
begin

section \<open>The TravelPassFHE contract as a shallow embedding\<close>

text \<open>
  The contract of \<^verbatim>\<open>src/unnamed/part_000\<close> (Solidity ^0.8.24). Storage is a record,
  every mapping a total function (a Solidity mapping holds the zero value at every key
  never written), every external function a function from the call's message and the
  storage to either the error it reverts with or the new storage and the events emitted.
  Arithmetic on \<open>uint256\<close> is checked, as the compiler version makes it: an overflow
  reverts with \<open>Panic(0x11)\<close>.
\<close>

subsection \<open>Types\<close>

type_synonym address = "160 word"
type_synonym uint256 = "256 word"
type_synonym uint32 = "32 word"
type_synonym bytes32 = "256 word"
type_synonym bytes = "8 word list"

text \<open>The custom errors of the contract, and the three reverts the language adds: a
  \<open>revert("...")\<close> with a message, an arithmetic panic, and a failed \<open>abi.decode\<close>.\<close>

datatype error =
    NotOwner
  | NotProvider
  | Paused
  | CooldownActive
  | BatchClosed
  | BatchNotClosed
  | InvalidCooldown
  | ReplayDetected
  | StateMismatch
  | InvalidProof
  | NotInitialized
  | InvalidBatchId
  | DuplicateProvider
  | ProviderNotAdded
  | ErrorString string
  | Panic nat
  | AbiDecodeRevert

datatype PassportAttribute = Nationality | VisaStatus

record PassportData =
  encryptedNationality :: bytes32
  encryptedVisaExpiryTimestamp :: bytes32

record DecryptionContext =
  batchId :: uint256
  stateHash :: bytes32
  processed :: bool

record Batch =
  isOpen :: bool
  createdAt :: uint256
  closedAt :: uint256

datatype event =
    OwnershipTransferred address address
  | ProviderAdded address
  | ProviderRemoved address
  | CooldownSet uint256 uint256
  | ContractPaused
  | ContractUnpaused
  | BatchOpened uint256
  | BatchClosedEvent uint256
  | PassportSubmitted address uint256
  | DecryptionRequested uint256 uint256 address PassportAttribute bytes32
  | DecryptionCompleted uint256 uint256 address PassportAttribute uint32

text \<open>The storage of the contract. \<open>paused\<close> is read by \<open>whenNotPaused\<close> and written by
  \<open>_pause\<close>/\<open>_unpause\<close>; \<open>counterRequest\<close> is the storage of the decryption-request
  channel (see \<open>requestDecryption\<close> below).\<close>

record storage =
  owner :: address
  isProvider :: "address \<Rightarrow> bool"
  lastSubmissionTime :: "address \<Rightarrow> uint256"
  lastDecryptionRequestTime :: "address \<Rightarrow> uint256"
  cooldownSeconds :: uint256
  currentBatchId :: uint256
  batches :: "uint256 \<Rightarrow> Batch"
  userPassportData :: "uint256 \<Rightarrow> address \<Rightarrow> PassportData"
  hasSubmittedForBatch :: "uint256 \<Rightarrow> address \<Rightarrow> bool"
  decryptionContexts :: "uint256 \<Rightarrow> DecryptionContext"
  paused :: bool
  counterRequest :: uint256

text \<open>What a call sees of its transaction: \<open>msg.sender\<close> and \<open>block.timestamp\<close>.\<close>

record msg =
  sender :: address
  timestamp :: uint256

text \<open>The external collaborators the contract calls and that are not part of its source:
  the address of the deployed instance, the homomorphic comparisons of the FHE library
  (on ciphertext handles), \<open>keccak256(abi.encode(cts, address))\<close>, and the oracle's
  signature check. They are parameters of the model.\<close>

record fhevm =
  this :: address
  fhe_eq :: "bytes32 \<Rightarrow> bytes32 \<Rightarrow> bytes32"
  fhe_ge :: "bytes32 \<Rightarrow> bytes32 \<Rightarrow> bytes32"
  keccak256_encode :: "bytes32 list \<Rightarrow> address \<Rightarrow> bytes32"
  checkSignatures :: "uint256 \<Rightarrow> bytes \<Rightarrow> bytes \<Rightarrow> bool"

type_synonym 'a result = "error + 'a"
type_synonym outcome = "(storage \<times> event list) result"

subsection \<open>Language-level helpers\<close>

text \<open>Checked addition of Solidity 0.8: \<open>None\<close> stands for the revert \<open>Panic(0x11)\<close>.\<close>

definition checked_add :: "uint256 \<Rightarrow> uint256 \<Rightarrow> uint256 option" where
  "checked_add a b = (if unat a + unat b < 2 ^ 256 then Some (a + b) else None)"

text \<open>A modifier either reverts with an error or lets the body run.\<close>

definition guard :: "error option \<Rightarrow> 'a result \<Rightarrow> 'a result" where
  "guard g body = (case g of Some e \<Rightarrow> Inl e | None \<Rightarrow> body)"

text \<open>\<open>abi.decode(cleartexts, (uint32))\<close>: the first 32 bytes, read big-endian, must be a
  value below \<open>2^32\<close>; shorter data or a larger value reverts.\<close>

definition be_nat :: "bytes \<Rightarrow> nat" where
  "be_nat bs = foldl (\<lambda>acc b. acc * 256 + unat b) 0 bs"

definition abi_decode_uint32 :: "bytes \<Rightarrow> uint32 option" where
  "abi_decode_uint32 cleartexts =
     (if length cleartexts < 32 then None
      else let v = be_nat (take 32 cleartexts)
           in if v < 2 ^ 32 then Some (of_nat v) else None)"

text \<open>\<open>isInitialized\<close> of the FHE library: a ciphertext handle is initialized when it is
  not the zero handle.\<close>

definition isInitialized :: "bytes32 \<Rightarrow> bool" where
  "isInitialized h = (h \<noteq> 0)"

text \<open>Modelled from the spec: \<open>FHE.requestDecryption\<close>, the oracle channel
  \<open>requestDecryption(ciphertextList) \<rightarrow> requestId\<close> whose code is in the FHE library and
  not in the source. The spec calls the request id an "oracle-assigned unique integer";
  ids are issued from a counter, so that no id is issued twice.\<close>

definition requestDecryption :: "storage \<Rightarrow> (uint256 \<times> storage) result" where
  "requestDecryption s =
     (case checked_add (counterRequest s) 1 of
        None \<Rightarrow> Inl (Panic 17)
      | Some n \<Rightarrow> Inr (counterRequest s, s\<lparr>counterRequest := n\<rparr>))"

subsection \<open>Modifiers\<close>

definition onlyOwner :: "msg \<Rightarrow> storage \<Rightarrow> error option" where
  "onlyOwner m s = (if sender m \<noteq> owner s then Some NotOwner else None)"

definition onlyProvider :: "msg \<Rightarrow> storage \<Rightarrow> error option" where
  "onlyProvider m s = (if \<not> isProvider s (sender m) then Some NotProvider else None)"

definition whenNotPaused :: "storage \<Rightarrow> error option" where
  "whenNotPaused s = (if paused s then Some Paused else None)"

definition respectCooldown ::
  "msg \<Rightarrow> storage \<Rightarrow> address \<Rightarrow> (address \<Rightarrow> uint256) \<Rightarrow> error option" where
  "respectCooldown m s user lastActionTime =
     (case checked_add (lastActionTime user) (cooldownSeconds s) of
        None \<Rightarrow> Some (Panic 17)
      | Some deadline \<Rightarrow>
          if timestamp m < deadline then Some CooldownActive else None)"

subsection \<open>Private functions\<close>

definition priv_openNewBatch :: "msg \<Rightarrow> uint256 \<Rightarrow> storage \<Rightarrow> storage \<times> event list" where
  "priv_openNewBatch m b s =
     (s\<lparr>batches := (batches s)(b := \<lparr>isOpen = True, createdAt = timestamp m, closedAt = 0\<rparr>)\<rparr>,
      [BatchOpened b])"

definition priv_closeBatch :: "msg \<Rightarrow> uint256 \<Rightarrow> storage \<Rightarrow> outcome" where
  "priv_closeBatch m b s =
     (if \<not> isOpen (batches s b) then Inl BatchClosed
      else Inr (s\<lparr>batches := (batches s)(b := (batches s b)\<lparr>isOpen := False, closedAt := timestamp m\<rparr>)\<rparr>,
                [BatchClosedEvent b]))"

definition priv_hashCiphertexts :: "fhevm \<Rightarrow> bytes32 list \<Rightarrow> bytes32" where
  "priv_hashCiphertexts env cts = keccak256_encode env cts (this env)"

definition priv_rebuildStateHashForCallback :: "fhevm \<Rightarrow> uint256 \<Rightarrow> bytes32" where
  "priv_rebuildStateHashForCallback env requestId =
     (let cts = [0] in priv_hashCiphertexts env cts)"

definition priv_initIfNeeded :: "bytes32 \<Rightarrow> error option" where
  "priv_initIfNeeded v = (if \<not> isInitialized v then Some NotInitialized else None)"

text \<open>Modelled from the spec: \<open>_pause\<close> and \<open>_unpause\<close>, which the source calls and does
  not define; the spec has "a global paused flag toggled by pause/unpause".\<close>

definition priv_pause :: "storage \<Rightarrow> storage" where
  "priv_pause s = s\<lparr>paused := True\<rparr>"

definition priv_unpause :: "storage \<Rightarrow> storage" where
  "priv_unpause s = s\<lparr>paused := False\<rparr>"

subsection \<open>Constructor and external functions\<close>

definition empty_storage :: "address \<Rightarrow> storage" where
  "empty_storage a =
     \<lparr>owner = a, isProvider = (\<lambda>_. False), lastSubmissionTime = (\<lambda>_. 0),
      lastDecryptionRequestTime = (\<lambda>_. 0), cooldownSeconds = 30, currentBatchId = 1,
      batches = (\<lambda>_. \<lparr>isOpen = False, createdAt = 0, closedAt = 0\<rparr>),
      userPassportData =
        (\<lambda>_ _. \<lparr>encryptedNationality = 0, encryptedVisaExpiryTimestamp = 0\<rparr>),
      hasSubmittedForBatch = (\<lambda>_ _. False),
      decryptionContexts = (\<lambda>_. \<lparr>batchId = 0, stateHash = 0, processed = False\<rparr>),
      paused = False, counterRequest = 0\<rparr>"

definition constructor :: "msg \<Rightarrow> storage \<times> event list" where
  "constructor m =
     (let s = empty_storage (sender m) in priv_openNewBatch m (currentBatchId s) s)"

definition transferOwnership :: "msg \<Rightarrow> address \<Rightarrow> storage \<Rightarrow> outcome" where
  "transferOwnership m newOwner s =
     guard (onlyOwner m s)
       (let previousOwner = owner s
        in Inr (s\<lparr>owner := newOwner\<rparr>, [OwnershipTransferred previousOwner newOwner]))"

definition addProvider :: "msg \<Rightarrow> address \<Rightarrow> storage \<Rightarrow> outcome" where
  "addProvider m provider s =
     guard (onlyOwner m s)
       (if isProvider s provider then Inl DuplicateProvider
        else Inr (s\<lparr>isProvider := (isProvider s)(provider := True)\<rparr>, [ProviderAdded provider]))"

definition removeProvider :: "msg \<Rightarrow> address \<Rightarrow> storage \<Rightarrow> outcome" where
  "removeProvider m provider s =
     guard (onlyOwner m s)
       (if \<not> isProvider s provider then Inl ProviderNotAdded
        else Inr (s\<lparr>isProvider := (isProvider s)(provider := False)\<rparr>, [ProviderRemoved provider]))"

definition setCooldown :: "msg \<Rightarrow> uint256 \<Rightarrow> storage \<Rightarrow> outcome" where
  "setCooldown m newCooldownSeconds s =
     guard (onlyOwner m s)
       (if newCooldownSeconds = 0 then Inl InvalidCooldown
        else let oldCooldown = cooldownSeconds s
             in Inr (s\<lparr>cooldownSeconds := newCooldownSeconds\<rparr>,
                     [CooldownSet oldCooldown newCooldownSeconds]))"

definition pause :: "msg \<Rightarrow> storage \<Rightarrow> outcome" where
  "pause m s = guard (onlyOwner m s) (Inr (priv_pause s, [ContractPaused]))"

definition unpause :: "msg \<Rightarrow> storage \<Rightarrow> outcome" where
  "unpause m s = guard (onlyOwner m s) (Inr (priv_unpause s, [ContractUnpaused]))"

definition openNewBatch :: "msg \<Rightarrow> storage \<Rightarrow> outcome" where
  "openNewBatch m s =
     guard (onlyOwner m s)
       (case checked_add (currentBatchId s) 1 of
          None \<Rightarrow> Inl (Panic 17)
        | Some n \<Rightarrow>
            let s1 = s\<lparr>currentBatchId := n\<rparr>
            in Inr (priv_openNewBatch m (currentBatchId s1) s1))"

definition closeCurrentBatch :: "msg \<Rightarrow> storage \<Rightarrow> outcome" where
  "closeCurrentBatch m s =
     guard (onlyOwner m s)
       (case priv_closeBatch m (currentBatchId s) s of
          Inl e \<Rightarrow> Inl e
        | Inr (s1, evs) \<Rightarrow>
            (case checked_add (currentBatchId s1) 1 of
               None \<Rightarrow> Inl (Panic 17)
             | Some n \<Rightarrow> Inr (s1\<lparr>currentBatchId := n\<rparr>, evs)))"

definition submitPassportData ::
  "msg \<Rightarrow> address \<Rightarrow> bytes32 \<Rightarrow> bytes32 \<Rightarrow> storage \<Rightarrow> outcome" where
  "submitPassportData m user encNationality encVisaExpiry s =
     guard (onlyProvider m s)
    (guard (whenNotPaused s)
    (guard (respectCooldown m s user (lastSubmissionTime s))
       (if \<not> isOpen (batches s (currentBatchId s)) then Inl BatchClosed
        else if hasSubmittedForBatch s (currentBatchId s) user
          then Inl (ErrorString ''User already submitted for this batch'')
        else
          guard (priv_initIfNeeded encNationality)
         (guard (priv_initIfNeeded encVisaExpiry)
            (Inr (s\<lparr>userPassportData := (userPassportData s)(currentBatchId s :=
                       (userPassportData s (currentBatchId s))(user :=
                          \<lparr>encryptedNationality = encNationality,
                           encryptedVisaExpiryTimestamp = encVisaExpiry\<rparr>)),
                     hasSubmittedForBatch := (hasSubmittedForBatch s)(currentBatchId s :=
                       (hasSubmittedForBatch s (currentBatchId s))(user := True)),
                     lastSubmissionTime := (lastSubmissionTime s)(user := timestamp m)\<rparr>,
                  [PassportSubmitted user (currentBatchId s)]))))))"

definition requestVerifyNationality ::
  "fhevm \<Rightarrow> msg \<Rightarrow> address \<Rightarrow> uint256 \<Rightarrow> bytes32 \<Rightarrow> storage \<Rightarrow> outcome" where
  "requestVerifyNationality env m user forBatchId encryptedQueryNationality s =
     guard (onlyProvider m s)
    (guard (whenNotPaused s)
    (guard (respectCooldown m s user (lastDecryptionRequestTime s))
       (if currentBatchId s < forBatchId \<or> forBatchId = 0 then Inl InvalidBatchId
        else if isOpen (batches s forBatchId) then Inl BatchNotClosed
        else if \<not> isInitialized (encryptedNationality (userPassportData s forBatchId user))
          then Inl NotInitialized
        else
          guard (priv_initIfNeeded encryptedQueryNationality)
            (let encryptedResult =
                   fhe_eq env (encryptedNationality (userPassportData s forBatchId user))
                     encryptedQueryNationality;
                 cts = [encryptedResult];
                 hash = priv_hashCiphertexts env cts
             in case requestDecryption s of
                  Inl e \<Rightarrow> Inl e
                | Inr (requestId, s1) \<Rightarrow>
                    Inr (s1\<lparr>decryptionContexts := (decryptionContexts s1)(requestId :=
                               \<lparr>batchId = forBatchId, stateHash = hash, processed = False\<rparr>),
                             lastDecryptionRequestTime :=
                               (lastDecryptionRequestTime s1)(user := timestamp m)\<rparr>,
                         [DecryptionRequested requestId forBatchId user Nationality
                            encryptedQueryNationality])))))"

definition requestVerifyVisaStatus ::
  "fhevm \<Rightarrow> msg \<Rightarrow> address \<Rightarrow> uint256 \<Rightarrow> bytes32 \<Rightarrow> storage \<Rightarrow> outcome" where
  "requestVerifyVisaStatus env m user forBatchId encryptedCurrentTimestamp s =
     guard (onlyProvider m s)
    (guard (whenNotPaused s)
    (guard (respectCooldown m s user (lastDecryptionRequestTime s))
       (if currentBatchId s < forBatchId \<or> forBatchId = 0 then Inl InvalidBatchId
        else if isOpen (batches s forBatchId) then Inl BatchNotClosed
        else if \<not> isInitialized
                    (encryptedVisaExpiryTimestamp (userPassportData s forBatchId user))
          then Inl NotInitialized
        else
          guard (priv_initIfNeeded encryptedCurrentTimestamp)
            (let encryptedResult =
                   fhe_ge env
                     (encryptedVisaExpiryTimestamp (userPassportData s forBatchId user))
                     encryptedCurrentTimestamp;
                 cts = [encryptedResult];
                 hash = priv_hashCiphertexts env cts
             in case requestDecryption s of
                  Inl e \<Rightarrow> Inl e
                | Inr (requestId, s1) \<Rightarrow>
                    Inr (s1\<lparr>decryptionContexts := (decryptionContexts s1)(requestId :=
                               \<lparr>batchId = forBatchId, stateHash = hash, processed = False\<rparr>),
                             lastDecryptionRequestTime :=
                               (lastDecryptionRequestTime s1)(user := timestamp m)\<rparr>,
                         [DecryptionRequested requestId forBatchId user VisaStatus
                            encryptedCurrentTimestamp])))))"

definition myCallback ::
  "fhevm \<Rightarrow> msg \<Rightarrow> uint256 \<Rightarrow> bytes \<Rightarrow> bytes \<Rightarrow> storage \<Rightarrow> outcome" where
  "myCallback env m requestId cleartexts prf s =
     (if processed (decryptionContexts s requestId) then Inl ReplayDetected
      else
        let currentHash = priv_rebuildStateHashForCallback env requestId in
        if currentHash \<noteq> stateHash (decryptionContexts s requestId) then Inl StateMismatch
        else if \<not> checkSignatures env requestId cleartexts prf then Inl InvalidProof
        else
          (case abi_decode_uint32 cleartexts of
             None \<Rightarrow> Inl AbiDecodeRevert
           | Some r \<Rightarrow>
               let s1 = s\<lparr>decryptionContexts := (decryptionContexts s)(requestId :=
                            (decryptionContexts s requestId)\<lparr>processed := True\<rparr>)\<rparr>
               in Inr (s1, [DecryptionCompleted requestId
                              (batchId (decryptionContexts s1 requestId))
                              (sender m) Nationality r])))"

subsection \<open>Transactions and traces\<close>

datatype call =
    TransferOwnership address
  | AddProvider address
  | RemoveProvider address
  | SetCooldown uint256
  | Pause
  | Unpause
  | OpenNewBatch
  | CloseCurrentBatch
  | SubmitPassportData address bytes32 bytes32
  | RequestVerifyNationality address uint256 bytes32
  | RequestVerifyVisaStatus address uint256 bytes32
  | MyCallback uint256 bytes bytes

fun dispatch :: "fhevm \<Rightarrow> msg \<Rightarrow> call \<Rightarrow> storage \<Rightarrow> outcome" where
  "dispatch env m (TransferOwnership a) s = transferOwnership m a s"
| "dispatch env m (AddProvider a) s = addProvider m a s"
| "dispatch env m (RemoveProvider a) s = removeProvider m a s"
| "dispatch env m (SetCooldown c) s = setCooldown m c s"
| "dispatch env m Pause s = pause m s"
| "dispatch env m Unpause s = unpause m s"
| "dispatch env m OpenNewBatch s = openNewBatch m s"
| "dispatch env m CloseCurrentBatch s = closeCurrentBatch m s"
| "dispatch env m (SubmitPassportData u n v) s = submitPassportData m u n v s"
| "dispatch env m (RequestVerifyNationality u b q) s = requestVerifyNationality env m u b q s"
| "dispatch env m (RequestVerifyVisaStatus u b q) s = requestVerifyVisaStatus env m u b q s"
| "dispatch env m (MyCallback r c p) s = myCallback env m r c p s"

text \<open>A transaction that reverts leaves the storage as it was.\<close>

definition transact :: "fhevm \<Rightarrow> storage \<Rightarrow> msg \<times> call \<Rightarrow> storage" where
  "transact env s tx =
     (case dispatch env (fst tx) (snd tx) s of Inl e \<Rightarrow> s | Inr (s', evs) \<Rightarrow> s')"

definition run :: "fhevm \<Rightarrow> storage \<Rightarrow> (msg \<times> call) list \<Rightarrow> storage" where
  "run env s txs = foldl (transact env) s txs"

text \<open>The storage right after deployment by \<open>m\<close>. The storages the contract can be
  in are \<open>run env (deployed m) txs\<close>, for the traces \<open>txs\<close> of transactions.\<close>

definition deployed :: "msg \<Rightarrow> storage" where
  "deployed m = fst (constructor m)"

subsection \<open>Observing a trace\<close>

text \<open>The events the successful transactions of a trace emit, in order.\<close>

fun emitted :: "fhevm \<Rightarrow> storage \<Rightarrow> (msg \<times> call) list \<Rightarrow> event list" where
  "emitted env s [] = []"
| "emitted env s (tx # txs) =
     (case dispatch env (fst tx) (snd tx) s of Inl e \<Rightarrow> [] | Inr (s', evs) \<Rightarrow> evs)
     @ emitted env (transact env s tx) txs"

text \<open>The batch ids a list of events reports as opened.\<close>

fun openedIds :: "event list \<Rightarrow> uint256 list" where
  "openedIds [] = []"
| "openedIds (BatchOpened b # evs) = b # openedIds evs"
| "openedIds (e # evs) = openedIds evs"

text \<open>How many transactions of a trace are calls selected by \<open>sel\<close> (which sees the call
  and the storage it runs in) that do not revert.\<close>

fun successes ::
  "fhevm \<Rightarrow> (call \<Rightarrow> storage \<Rightarrow> bool) \<Rightarrow> storage \<Rightarrow> (msg \<times> call) list \<Rightarrow> nat" where
  "successes env sel s [] = 0"
| "successes env sel s (tx # txs) =
     (if sel (snd tx) s \<and> \<not> isl (dispatch env (fst tx) (snd tx) s) then 1 else 0)
     + successes env sel (transact env s tx) txs"

fun isOpenNewBatch :: "call \<Rightarrow> bool" where
  "isOpenNewBatch OpenNewBatch = True"
| "isOpenNewBatch c = False"

text \<open>A trace in which every \<open>openNewBatch\<close> that succeeds runs while the batch named by
  \<open>currentBatchId\<close> is not open, that is, after it was closed.\<close>

fun closes_before_opening :: "fhevm \<Rightarrow> storage \<Rightarrow> (msg \<times> call) list \<Rightarrow> bool" where
  "closes_before_opening env s [] = True"
| "closes_before_opening env s (tx # txs) =
     ((isOpenNewBatch (snd tx) \<and> \<not> isl (dispatch env (fst tx) (snd tx) s)
         \<longrightarrow> \<not> isOpen (batches s (currentBatchId s)))
      \<and> closes_before_opening env (transact env s tx) txs)"

fun isSubmitInto :: "uint256 \<Rightarrow> address \<Rightarrow> call \<Rightarrow> storage \<Rightarrow> bool" where
  "isSubmitInto b u (SubmitPassportData u' n v) s = (u' = u \<and> currentBatchId s = b)"
| "isSubmitInto b u c s = False"

fun isSubmitNaming :: "address \<Rightarrow> call \<Rightarrow> storage \<Rightarrow> bool" where
  "isSubmitNaming u (SubmitPassportData u' n v) s = (u' = u)"
| "isSubmitNaming u c s = False"

fun isRequestNaming :: "address \<Rightarrow> call \<Rightarrow> storage \<Rightarrow> bool" where
  "isRequestNaming u (RequestVerifyNationality u' b q) s = (u' = u)"
| "isRequestNaming u (RequestVerifyVisaStatus u' b q) s = (u' = u)"
| "isRequestNaming u c s = False"

fun isCallbackFor :: "uint256 \<Rightarrow> call \<Rightarrow> storage \<Rightarrow> bool" where
  "isCallbackFor r (MyCallback r' c p) s = (r' = r)"
| "isCallbackFor r c s = False"

subsection \<open>A test double for the collaborators\<close>

text \<open>A small stand-in for the FHE library and the oracle, to run the contract on concrete
  inputs: the comparisons answer with handles that are not zero on the small handles used
  here, the digest tells the list \<open>[0]\<close> from every list of one non-zero handle, and the
  proof accepted is the byte 1.\<close>

definition demo :: fhevm where
  "demo = \<lparr>this = 77, fhe_eq = (\<lambda>a b. 1000 + a + b), fhe_ge = (\<lambda>a b. 2000 + a + b),
            keccak256_encode = (\<lambda>cts a. 1 + sum_list cts),
            checkSignatures = (\<lambda>r c p. p = [1])\<rparr>"

text \<open>The same with a comparison that answers with the zero handle: the one case in which
  the digest stored by a request equals the digest \<open>myCallback\<close> recomputes.\<close>

definition demo_zero_handle :: fhevm where
  "demo_zero_handle = demo\<lparr>fhe_eq := (\<lambda>a b. 0), fhe_ge := (\<lambda>a b. 0)\<rparr>"

text \<open>A well-formed answer of the oracle: the 32-byte encoding of the \<open>uint32\<close> 1.\<close>

definition cleartext_one :: bytes where
  "cleartext_one = [0,0,0,0,0,0,0,0, 0,0,0,0,0,0,0,0, 0,0,0,0,0,0,0,0, 0,0,0,0,0,0,0,1]"

text \<open>A trace that ends with a verification request: the owner (address 1) adds the provider
  (address 2), who submits for the user (address 3) into batch 1; the owner closes the
  batch; the provider asks for the user's nationality check on batch 1.\<close>

definition request_trace :: "(msg \<times> call) list" where
  "request_trace =
     [(\<lparr>sender = 1, timestamp = 5\<rparr>, AddProvider 2),
      (\<lparr>sender = 2, timestamp = 100\<rparr>, SubmitPassportData 3 7 8),
      (\<lparr>sender = 1, timestamp = 200\<rparr>, CloseCurrentBatch),
      (\<lparr>sender = 2, timestamp = 300\<rparr>, RequestVerifyNationality 3 1 9)]"

text \<open>A trace after which the cooldown is the largest \<open>uint256\<close>: the provider has submitted
  for the user at time 100, then the owner sets the cooldown.\<close>

definition huge_cooldown_trace :: "(msg \<times> call) list" where
  "huge_cooldown_trace =
     [(\<lparr>sender = 1, timestamp = 5\<rparr>, AddProvider 2),
      (\<lparr>sender = 2, timestamp = 100\<rparr>, SubmitPassportData 3 7 8),
      (\<lparr>sender = 1, timestamp = 150\<rparr>,
         SetCooldown 115792089237316195423570985008687907853269984665640564039457584007913129639935)]"

subsection \<open>Invariants of the storage\<close>

text \<open>A slot no submission was stored in holds the zero record; batch ids above
  \<open>currentBatchId\<close> (and the id 0) were never created; request ids the oracle channel
  has not issued yet have the zero context.\<close>

definition unsubmitted_blank :: "storage \<Rightarrow> bool" where
  "unsubmitted_blank s = (\<forall>b u. \<not> hasSubmittedForBatch s b u \<longrightarrow>
     userPassportData s b u = \<lparr>encryptedNationality = 0, encryptedVisaExpiryTimestamp = 0\<rparr>)"

definition batches_fresh :: "storage \<Rightarrow> bool" where
  "batches_fresh s = (0 < unat (currentBatchId s) \<and>
     (\<forall>b. unat (currentBatchId s) < unat b \<or> b = 0 \<longrightarrow>
        batches s b = \<lparr>isOpen = False, createdAt = 0, closedAt = 0\<rparr>))"

definition contexts_fresh :: "storage \<Rightarrow> bool" where
  "contexts_fresh s = (\<forall>r. unat (counterRequest s) \<le> unat r \<longrightarrow>
     decryptionContexts s r = \<lparr>batchId = 0, stateHash = 0, processed = False\<rparr>)"

text \<open>An id at or below the counter whose batch was never created is never opened.\<close>

definition reserved :: "uint256 \<Rightarrow> storage \<Rightarrow> bool" where
  "reserved k s = (unat k \<le> unat (currentBatchId s) \<and>
     batches s k = \<lparr>isOpen = False, createdAt = 0, closedAt = 0\<rparr>)"

section \<open>Basic facts\<close>


lemmas modifier_defs = guard_def onlyOwner_def onlyProvider_def whenNotPaused_def
  respectCooldown_def priv_initIfNeeded_def

lemmas function_defs = transferOwnership_def addProvider_def removeProvider_def
  setCooldown_def pause_def unpause_def openNewBatch_def closeCurrentBatch_def
  submitPassportData_def requestVerifyNationality_def requestVerifyVisaStatus_def
  myCallback_def requestDecryption_def priv_openNewBatch_def
  priv_closeBatch_def priv_pause_def priv_unpause_def

lemma run_Nil [simp]: "run env s [] = s"
  by (simp add: run_def)

lemma run_Cons [simp]: "run env s (tx # txs) = run env (transact env s tx) txs"
  by (simp add: run_def)

lemma run_append: "run env s (xs @ ys) = run env (run env s xs) ys"
  by (simp add: run_def)

lemma run_invariant:
  assumes "P s" and "\<And>s tx. P s \<Longrightarrow> P (transact env s tx)"
  shows "P (run env s txs)"
  using assms(1) by (induction txs arbitrary: s) (auto intro: assms(2))

lemma checked_add_Some: "checked_add a b = Some c \<Longrightarrow> unat c = unat a + unat b"
  by (auto simp: checked_add_def unat_word_ariths split: if_splits)

lemma checked_add_None: "checked_add a b = None \<longleftrightarrow> 2 ^ 256 \<le> unat a + unat b"
  by (auto simp: checked_add_def)

lemma checked_add_zero [simp]: "checked_add 0 b = Some b"
  using unsigned_less [of b, where 'a = nat] by (simp add: checked_add_def)

text \<open>Storage a transaction leaves alone.\<close>

lemma transact_submitted_frame:
  assumes "hasSubmittedForBatch s b u"
  shows "hasSubmittedForBatch (transact env s tx) b u \<and>
         userPassportData (transact env s tx) b u = userPassportData s b u"
  using assms
  by (cases tx; cases "snd tx")
     (auto simp: transact_def function_defs modifier_defs Let_def
           split: option.splits sum.splits if_splits prod.splits)

lemma transact_unsubmitted_blank:
  assumes "unsubmitted_blank s"
  shows "unsubmitted_blank (transact env s tx)"
  using assms unfolding unsubmitted_blank_def
  by (cases tx; cases "snd tx")
     (auto simp: transact_def function_defs modifier_defs Let_def
           split: option.splits sum.splits if_splits prod.splits)

lemma deployed_unsubmitted_blank: "unsubmitted_blank (deployed m)"
  by (simp add: unsubmitted_blank_def deployed_def constructor_def priv_openNewBatch_def empty_storage_def)

lemma transact_batches_fresh:
  assumes "batches_fresh s"
  shows "batches_fresh (transact env s tx)"
  using assms unfolding batches_fresh_def
  by (cases tx; cases "snd tx")
     (auto simp: transact_def function_defs modifier_defs Let_def
           dest!: checked_add_Some
           split: option.splits sum.splits if_splits prod.splits)

lemma deployed_batches_fresh: "batches_fresh (deployed m)"
  by (auto simp: batches_fresh_def deployed_def constructor_def priv_openNewBatch_def empty_storage_def)


lemma transact_contexts_fresh:
  assumes "keccak256_encode env [0] (this env) \<noteq> 0" and "contexts_fresh s"
  shows "contexts_fresh (transact env s tx)"
  using assms unfolding contexts_fresh_def
  by (cases tx; cases "snd tx")
     (auto simp: transact_def function_defs modifier_defs Let_def
             priv_rebuildStateHashForCallback_def priv_hashCiphertexts_def
           dest!: checked_add_Some
           split: option.splits sum.splits if_splits prod.splits)

lemma deployed_contexts_fresh: "contexts_fresh (deployed m)"
  by (simp add: contexts_fresh_def deployed_def constructor_def priv_openNewBatch_def empty_storage_def)

lemma transact_processed:
  assumes "processed (decryptionContexts s r)" and "unat r < unat (counterRequest s)"
  shows "processed (decryptionContexts (transact env s tx) r) \<and>
         unat r < unat (counterRequest (transact env s tx))"
  using assms
  by (cases tx; cases "snd tx")
     (auto simp: transact_def function_defs modifier_defs Let_def
           dest!: checked_add_Some
           split: option.splits sum.splits if_splits prod.splits)

lemma successes_latch:
  assumes inv: "\<And>s tx. I s \<Longrightarrow> I (transact env s tx)"
      and latch: "\<And>s tx. I s \<Longrightarrow> L s \<Longrightarrow> L (transact env s tx)"
      and blocked: "\<And>s m c. I s \<Longrightarrow> L s \<Longrightarrow> sel c s \<Longrightarrow> isl (dispatch env m c s)"
      and sets: "\<And>s m c s' evs. I s \<Longrightarrow> sel c s \<Longrightarrow> dispatch env m c s = Inr (s', evs) \<Longrightarrow> L s'"
  shows "I s \<Longrightarrow> L s \<Longrightarrow> successes env sel s txs = 0"
    and "I s \<Longrightarrow> successes env sel s txs \<le> 1"
proof -
  show zero: "I s \<Longrightarrow> L s \<Longrightarrow> successes env sel s txs = 0" for s txs
  proof (induction txs arbitrary: s)
    case Nil
    then show ?case by simp
  next
    case (Cons tx txs)
    have "successes env sel (transact env s tx) txs = 0"
      using Cons.IH Cons.prems inv latch by blast
    moreover have "sel (snd tx) s \<Longrightarrow> isl (dispatch env (fst tx) (snd tx) s)"
      using blocked Cons.prems by blast
    ultimately show ?case by auto
  qed
  show "I s \<Longrightarrow> successes env sel s txs \<le> 1"
  proof (induction txs arbitrary: s)
    case Nil
    then show ?case by simp
  next
    case (Cons tx txs)
    show ?case
    proof (cases "sel (snd tx) s \<and> \<not> isl (dispatch env (fst tx) (snd tx) s)")
      case True
      then obtain s' evs where d: "dispatch env (fst tx) (snd tx) s = Inr (s', evs)"
        by (cases "dispatch env (fst tx) (snd tx) s") auto
      then have "L s'" using sets True Cons.prems by blast
      moreover have "transact env s tx = s'" using d by (simp add: transact_def)
      ultimately have "successes env sel (transact env s tx) txs = 0"
        using zero inv Cons.prems by metis
      then show ?thesis using True by simp
    next
      case False
      then show ?thesis using Cons.IH [OF inv [OF Cons.prems]] by auto
    qed
  qed
qed


lemma submit_success:
  assumes "submitPassportData m u n v s = Inr (s', evs)"
  shows "\<not> hasSubmittedForBatch s (currentBatchId s) u \<and>
         hasSubmittedForBatch s' (currentBatchId s) u \<and>
         userPassportData s' (currentBatchId s) u =
           \<lparr>encryptedNationality = n, encryptedVisaExpiryTimestamp = v\<rparr>"
  using assms
  by (auto simp: submitPassportData_def modifier_defs split: option.splits if_splits)

lemma run_submitted_frame:
  "hasSubmittedForBatch s b u \<Longrightarrow>
   hasSubmittedForBatch (run env s txs) b u \<and>
   userPassportData (run env s txs) b u = userPassportData s b u"
proof (induction txs arbitrary: s)
  case Nil
  then show ?case by simp
next
  case (Cons tx txs)
  from transact_submitted_frame [OF Cons.prems, of env tx]
  have f: "hasSubmittedForBatch (transact env s tx) b u"
    and d: "userPassportData (transact env s tx) b u = userPassportData s b u"
    by simp_all
  from Cons.IH [OF f] d show ?case by simp
qed

lemma submit_at_most_once: "successes env (isSubmitInto b u) s txs \<le> 1"
proof (rule successes_latch(2) [where I = "\<lambda>_. True" and L = "\<lambda>s. hasSubmittedForBatch s b u"])
  fix s :: storage and tx
  assume "hasSubmittedForBatch s b u"
  then show "hasSubmittedForBatch (transact env s tx) b u"
    using transact_submitted_frame by blast
next
  fix s :: storage and m c
  assume "hasSubmittedForBatch s b u" and "isSubmitInto b u c s"
  then show "isl (dispatch env m c s)"
    by (cases c) (auto simp: submitPassportData_def modifier_defs split: option.splits)
next
  fix s s' :: storage and m c evs
  assume "isSubmitInto b u c s" and "dispatch env m c s = Inr (s', evs)"
  then show "hasSubmittedForBatch s' b u"
    by (cases c) (auto dest: submit_success)
qed simp_all

text \<open>
  Claim C5. For every pair \<open>(batchId, user)\<close>, in every trace from every storage at most one
  \<open>submitPassportData\<close> call that stores into that key succeeds: a successful call finds
  the flag \<open>hasSubmittedForBatch\<close> unset, stores its record and sets the flag; and once
  the flag is set, no sequence of transactions of the contract changes the stored record
  or unsets the flag.
\<close>

theorem C5_one_submission_immutable_record:
  "successes env (isSubmitInto b u) s txs \<le> 1 \<and>
   (submitPassportData m u n v s = Inr (s', evs) \<longrightarrow>
      \<not> hasSubmittedForBatch s (currentBatchId s) u \<and>
      hasSubmittedForBatch s' (currentBatchId s) u \<and>
      userPassportData s' (currentBatchId s) u =
        \<lparr>encryptedNationality = n, encryptedVisaExpiryTimestamp = v\<rparr>) \<and>
   (hasSubmittedForBatch s b u \<longrightarrow>
      hasSubmittedForBatch (run env s txs) b u \<and>
      userPassportData (run env s txs) b u = userPassportData s b u)"
  using submit_at_most_once submit_success run_submitted_frame by blast

lemma deployed_demo:
  "deployed \<lparr>sender = 1, timestamp = 0\<rparr> =
     (empty_storage 1)\<lparr>batches := (batches (empty_storage 1))
        (1 := \<lparr>isOpen = True, createdAt = 0, closedAt = 0\<rparr>)\<rparr>"
  by (simp add: deployed_def constructor_def priv_openNewBatch_def empty_storage_def)

lemmas eval_defs = transact_def empty_storage_def modifier_defs checked_add_def
  isInitialized_def addProvider_def submitPassportData_def closeCurrentBatch_def
  openNewBatch_def priv_closeBatch_def priv_openNewBatch_def setCooldown_def

lemma scenario_submitted:
  "run env (deployed \<lparr>sender = 1, timestamp = 0\<rparr>)
     [(\<lparr>sender = 1, timestamp = 5\<rparr>, AddProvider 2),
      (\<lparr>sender = 2, timestamp = 100\<rparr>, SubmitPassportData 3 7 8)]
   = (deployed \<lparr>sender = 1, timestamp = 0\<rparr>)
       \<lparr>isProvider := (\<lambda>_. False)(2 := True),
        lastSubmissionTime := (\<lambda>_. 0)(3 := 100),
        userPassportData := (\<lambda>_ _. \<lparr>encryptedNationality = 0, encryptedVisaExpiryTimestamp = 0\<rparr>)
          (1 := (\<lambda>_. \<lparr>encryptedNationality = 0, encryptedVisaExpiryTimestamp = 0\<rparr>)
             (3 := \<lparr>encryptedNationality = 7, encryptedVisaExpiryTimestamp = 8\<rparr>)),
        hasSubmittedForBatch := (\<lambda>_ _. False)(1 := (\<lambda>_. False)(3 := True))\<rparr>"
  by (simp add: deployed_demo eval_defs)

theorem C5_witness:
  "hasSubmittedForBatch
     (run demo (deployed \<lparr>sender = 1, timestamp = 0\<rparr>)
        [(\<lparr>sender = 1, timestamp = 5\<rparr>, AddProvider 2),
         (\<lparr>sender = 2, timestamp = 100\<rparr>, SubmitPassportData 3 7 8)]) 1 3 \<and>
   userPassportData
     (run demo (run demo (deployed \<lparr>sender = 1, timestamp = 0\<rparr>)
        [(\<lparr>sender = 1, timestamp = 5\<rparr>, AddProvider 2),
         (\<lparr>sender = 2, timestamp = 100\<rparr>, SubmitPassportData 3 7 8)])
        [(\<lparr>sender = 2, timestamp = 500\<rparr>, SubmitPassportData 3 11 12),
         (\<lparr>sender = 1, timestamp = 600\<rparr>, CloseCurrentBatch)]) 1 3
     = \<lparr>encryptedNationality = 7, encryptedVisaExpiryTimestamp = 8\<rparr>"
proof -
  let ?s = "run demo (deployed \<lparr>sender = 1, timestamp = 0\<rparr>)
        [(\<lparr>sender = 1, timestamp = 5\<rparr>, AddProvider 2),
         (\<lparr>sender = 2, timestamp = 100\<rparr>, SubmitPassportData 3 7 8)]"
  have h: "hasSubmittedForBatch ?s 1 3"
    by (simp only: scenario_submitted) simp
  have v: "userPassportData ?s 1 3 = \<lparr>encryptedNationality = 7, encryptedVisaExpiryTimestamp = 8\<rparr>"
    by (simp only: scenario_submitted) simp
  from C5_one_submission_immutable_record
    [of demo 1 3 ?s "[(\<lparr>sender = 2, timestamp = 500\<rparr>, SubmitPassportData 3 11 12),
         (\<lparr>sender = 1, timestamp = 600\<rparr>, CloseCurrentBatch)]"] h v
  show ?thesis by metis
qed

lemma callback_success:
  assumes "myCallback env m r c p s = Inr (s', evs)"
  shows "\<not> processed (decryptionContexts s r) \<and> processed (decryptionContexts s' r) \<and>
         stateHash (decryptionContexts s r) = keccak256_encode env [0] (this env) \<and>
         counterRequest s' = counterRequest s \<and>
         (\<exists>res. abi_decode_uint32 c = Some res \<and>
            evs = [DecryptionCompleted r (batchId (decryptionContexts s r)) (sender m)
                     Nationality res])"
  using assms
  by (auto simp: myCallback_def Let_def priv_rebuildStateHashForCallback_def
        priv_hashCiphertexts_def split: if_splits option.splits)

lemma callback_replay:
  "processed (decryptionContexts s r) \<Longrightarrow> myCallback env m r c p s = Inl ReplayDetected"
  by (simp add: myCallback_def)

lemma callback_unknown:
  assumes "keccak256_encode env [0] (this env) \<noteq> 0" and "contexts_fresh s"
      and "unat (counterRequest s) \<le> unat r"
  shows "myCallback env m r c p s = Inl StateMismatch"
  using assms
  by (simp add: contexts_fresh_def myCallback_def priv_rebuildStateHashForCallback_def
        priv_hashCiphertexts_def)

lemma run_contexts_fresh:
  assumes "keccak256_encode env [0] (this env) \<noteq> 0"
  shows "contexts_fresh (run env (deployed m0) txs)"
  by (rule run_invariant [where P = contexts_fresh])
     (simp_all add: deployed_contexts_fresh transact_contexts_fresh assms)

lemma run_processed:
  assumes "processed (decryptionContexts s r)" and "unat r < unat (counterRequest s)"
  shows "processed (decryptionContexts (run env s txs) r)"
proof -
  have "processed (decryptionContexts (run env s txs) r) \<and>
        unat r < unat (counterRequest (run env s txs))"
    by (rule run_invariant
          [where P = "\<lambda>s. processed (decryptionContexts s r) \<and> unat r < unat (counterRequest s)"])
       (simp_all add: assms transact_processed)
  then show ?thesis ..
qed

lemma callback_issued:
  assumes h: "keccak256_encode env [0] (this env) \<noteq> 0" and f: "contexts_fresh s"
      and ok: "myCallback env m r c p s = Inr (s', evs)"
  shows "unat r < unat (counterRequest s')"
proof (rule ccontr)
  assume "\<not> unat r < unat (counterRequest s')"
  then have "unat (counterRequest s) \<le> unat r"
    using callback_success [OF ok] by simp
  from callback_unknown [OF h f this] ok show False by simp
qed

lemma callback_at_most_once:
  assumes h: "keccak256_encode env [0] (this env) \<noteq> 0"
  shows "successes env (isCallbackFor r) (deployed m0) txs \<le> 1"
proof (rule successes_latch(2) [where I = contexts_fresh
        and L = "\<lambda>s. processed (decryptionContexts s r) \<and> unat r < unat (counterRequest s)"])
  fix s :: storage and tx
  assume "contexts_fresh s"
  then show "contexts_fresh (transact env s tx)"
    by (rule transact_contexts_fresh [OF h])
next
  fix s :: storage and tx
  assume "processed (decryptionContexts s r) \<and> unat r < unat (counterRequest s)"
  then show "processed (decryptionContexts (transact env s tx) r) \<and>
             unat r < unat (counterRequest (transact env s tx))"
    using transact_processed by blast
next
  fix s :: storage and m c
  assume "processed (decryptionContexts s r) \<and> unat r < unat (counterRequest s)"
     and "isCallbackFor r c s"
  then show "isl (dispatch env m c s)"
    by (cases c) (auto simp: callback_replay)
next
  fix s s' :: storage and m c evs
  assume "contexts_fresh s" and "isCallbackFor r c s" and "dispatch env m c s = Inr (s', evs)"
  then show "processed (decryptionContexts s' r) \<and> unat r < unat (counterRequest s')"
    by (cases c) (auto dest: callback_success callback_issued [OF h])
next
  show "contexts_fresh (deployed m0)" by (rule deployed_contexts_fresh)
qed

text \<open>
  Claim C3. For every request id, \<open>myCallback\<close> succeeds at most once in every trace from
  deployment. A success finds \<open>processed\<close> false and leaves it true; a call for a
  processed id is rejected with \<open>ReplayDetected\<close>; a call for an id the oracle channel
  has not issued is rejected (with \<open>StateMismatch\<close>); and after a success the flag stays
  true over every later trace, so every later call for that id fails with
  \<open>ReplayDetected\<close>. The contract has no check of its own for unknown ids: they are
  rejected because the zero context's \<open>stateHash\<close> is 0, which the recomputed digest
  is assumed not to be.
\<close>

theorem C3_callback_succeeds_at_most_once:
  assumes "keccak256_encode env [0] (this env) \<noteq> 0"
  shows "successes env (isCallbackFor r) (deployed m0) txs \<le> 1 \<and>
         (myCallback env m r c p s = Inr (s1, evs1) \<longrightarrow>
            \<not> processed (decryptionContexts s r) \<and> processed (decryptionContexts s1 r)) \<and>
         (processed (decryptionContexts s r) \<longrightarrow>
            myCallback env m r c p s = Inl ReplayDetected) \<and>
         (unat (counterRequest (run env (deployed m0) txs)) \<le> unat r \<longrightarrow>
            myCallback env m r c p (run env (deployed m0) txs) = Inl StateMismatch) \<and>
         (myCallback env m r c p (run env (deployed m0) txs) = Inr (s2, evs2) \<longrightarrow>
            processed (decryptionContexts (run env s2 txs2) r) \<and>
            myCallback env m' r c' p' (run env s2 txs2) = Inl ReplayDetected)"
proof -
  note fresh = run_contexts_fresh [OF assms, of m0 txs]
  have last: "processed (decryptionContexts (run env s2 txs2) r) \<and>
      myCallback env m' r c' p' (run env s2 txs2) = Inl ReplayDetected"
    if ok: "myCallback env m r c p (run env (deployed m0) txs) = Inr (s2, evs2)"
  proof -
    have "processed (decryptionContexts s2 r)"
      using callback_success [OF ok] by simp
    moreover have "unat r < unat (counterRequest s2)"
      by (rule callback_issued [OF assms fresh ok])
    ultimately have "processed (decryptionContexts (run env s2 txs2) r)"
      by (rule run_processed)
    then show ?thesis by (simp add: callback_replay)
  qed
  show ?thesis
    using callback_at_most_once [OF assms] callback_success [of env m r c p s s1 evs1]
      callback_replay [of s r env m c p] callback_unknown [OF assms fresh] last
    by blast
qed

lemmas request_eval_defs = eval_defs requestVerifyNationality_def requestVerifyVisaStatus_def
  requestDecryption_def priv_hashCiphertexts_def Let_def

lemma request_trace_context:
  "decryptionContexts (run demo_zero_handle (deployed \<lparr>sender = 1, timestamp = 0\<rparr>) request_trace) 0
     = \<lparr>batchId = 1, stateHash = 1, processed = False\<rparr>"
  by (simp add: request_trace_def deployed_demo request_eval_defs demo_zero_handle_def demo_def)

lemma decode_cleartext_one: "abi_decode_uint32 cleartext_one = Some 1"
  by (simp add: abi_decode_uint32_def cleartext_one_def be_nat_def)

lemma demo_zero_handle_fields:
  "keccak256_encode demo_zero_handle [0] (this demo_zero_handle) = 1"
  "checkSignatures demo_zero_handle r c p = (p = [1])"
  by (simp_all add: demo_zero_handle_def demo_def)

lemma request_trace_callback:
  "myCallback demo_zero_handle m 0 cleartext_one [1]
     (run demo_zero_handle (deployed \<lparr>sender = 1, timestamp = 0\<rparr>) request_trace)
   = Inr ((run demo_zero_handle (deployed \<lparr>sender = 1, timestamp = 0\<rparr>) request_trace)
            \<lparr>decryptionContexts :=
               (decryptionContexts
                  (run demo_zero_handle (deployed \<lparr>sender = 1, timestamp = 0\<rparr>) request_trace))
               (0 := \<lparr>batchId = 1, stateHash = 1, processed = True\<rparr>)\<rparr>,
          [DecryptionCompleted 0 1 (sender m) Nationality 1])"
  by (simp add: myCallback_def request_trace_context decode_cleartext_one
        priv_rebuildStateHashForCallback_def priv_hashCiphertexts_def demo_zero_handle_fields)


lemma request_trace_counter:
  "counterRequest (run demo_zero_handle (deployed \<lparr>sender = 1, timestamp = 0\<rparr>) request_trace) = 1"
  by (simp add: request_trace_def deployed_demo request_eval_defs demo_zero_handle_def demo_def)

theorem C3_witness:
  "keccak256_encode demo_zero_handle [0] (this demo_zero_handle) \<noteq> 0 \<and>
   successes demo_zero_handle (isCallbackFor 0) (deployed \<lparr>sender = 1, timestamp = 0\<rparr>)
     request_trace \<le> 1 \<and>
   myCallback demo_zero_handle \<lparr>sender = 9, timestamp = 400\<rparr> 5 cleartext_one [1]
     (run demo_zero_handle (deployed \<lparr>sender = 1, timestamp = 0\<rparr>) request_trace)
     = Inl StateMismatch \<and>
   \<not> isl (myCallback demo_zero_handle \<lparr>sender = 9, timestamp = 400\<rparr> 0 cleartext_one [1]
     (run demo_zero_handle (deployed \<lparr>sender = 1, timestamp = 0\<rparr>) request_trace)) \<and>
   myCallback demo_zero_handle \<lparr>sender = 9, timestamp = 500\<rparr> 0 cleartext_one [1]
     (run demo_zero_handle
        ((run demo_zero_handle (deployed \<lparr>sender = 1, timestamp = 0\<rparr>) request_trace)
            \<lparr>decryptionContexts :=
               (decryptionContexts
                  (run demo_zero_handle (deployed \<lparr>sender = 1, timestamp = 0\<rparr>) request_trace))
               (0 := \<lparr>batchId = 1, stateHash = 1, processed = True\<rparr>)\<rparr>)
        [(\<lparr>sender = 1, timestamp = 450\<rparr>, OpenNewBatch)])
     = Inl ReplayDetected"
proof -
  have h: "keccak256_encode demo_zero_handle [0] (this demo_zero_handle) \<noteq> 0"
    by (simp add: demo_zero_handle_fields)
  have c: "unat (counterRequest
      (run demo_zero_handle (deployed \<lparr>sender = 1, timestamp = 0\<rparr>) request_trace)) \<le> unat (5 :: uint256)"
    by (simp add: request_trace_counter)
  note ok = request_trace_callback [of "\<lparr>sender = 9, timestamp = 400\<rparr>"]
  from C3_callback_succeeds_at_most_once [OF h, where r = 0 and ?m0.0 = "\<lparr>sender = 1, timestamp = 0\<rparr>"
      and txs = request_trace and m = "\<lparr>sender = 9, timestamp = 400\<rparr>" and c = cleartext_one
      and p = "[1]" and m' = "\<lparr>sender = 9, timestamp = 500\<rparr>" and c' = cleartext_one and p' = "[1]"
      and ?txs2.0 = "[(\<lparr>sender = 1, timestamp = 450\<rparr>, OpenNewBatch)]"] ok
  have a: "successes demo_zero_handle (isCallbackFor 0) (deployed \<lparr>sender = 1, timestamp = 0\<rparr>)
     request_trace \<le> 1"
    and b: "myCallback demo_zero_handle \<lparr>sender = 9, timestamp = 500\<rparr> 0 cleartext_one [1]
     (run demo_zero_handle
        ((run demo_zero_handle (deployed \<lparr>sender = 1, timestamp = 0\<rparr>) request_trace)
            \<lparr>decryptionContexts :=
               (decryptionContexts
                  (run demo_zero_handle (deployed \<lparr>sender = 1, timestamp = 0\<rparr>) request_trace))
               (0 := \<lparr>batchId = 1, stateHash = 1, processed = True\<rparr>)\<rparr>)
        [(\<lparr>sender = 1, timestamp = 450\<rparr>, OpenNewBatch)])
     = Inl ReplayDetected"
    by blast+
  from C3_callback_succeeds_at_most_once [OF h, where r = 5 and ?m0.0 = "\<lparr>sender = 1, timestamp = 0\<rparr>"
      and txs = request_trace and m = "\<lparr>sender = 9, timestamp = 400\<rparr>" and c = cleartext_one
      and p = "[1]"] c
  have d: "myCallback demo_zero_handle \<lparr>sender = 9, timestamp = 400\<rparr> 5 cleartext_one [1]
     (run demo_zero_handle (deployed \<lparr>sender = 1, timestamp = 0\<rparr>) request_trace)
     = Inl StateMismatch"
    by blast
  show ?thesis using h a b d ok by simp
qed

lemma request_success:
  assumes "requestVerifyNationality env mr u b q s0 = Inr (s, evs0) \<or>
           requestVerifyVisaStatus env mr u b q s0 = Inr (s, evs0)"
  shows "batchId (decryptionContexts s (counterRequest s0)) = b \<and>
         \<not> processed (decryptionContexts s (counterRequest s0))"
  using assms
  by (auto simp: requestVerifyNationality_def requestVerifyVisaStatus_def
        requestDecryption_def modifier_defs Let_def
        split: option.splits if_splits)

text \<open>
  Claim C8. \<open>myCallback\<close> has no caller gate: whoever calls, it never reverts with
  \<open>NotOwner\<close>, \<open>NotProvider\<close>, \<open>Paused\<close> or \<open>CooldownActive\<close>; the error or the new
  storage is the same for every message (sender and timestamp), so acceptance depends only
  on the request id, the cleartexts, the proof and the storage; and on success the one event
  emitted carries \<open>msg.sender\<close> of the callback in its user field, also when the
  request was issued about another user.
\<close>

theorem C8_callback_has_no_caller_gate:
  "myCallback env m r c p s \<noteq> Inl NotOwner \<and>
   myCallback env m r c p s \<noteq> Inl NotProvider \<and>
   myCallback env m r c p s \<noteq> Inl Paused \<and>
   myCallback env m r c p s \<noteq> Inl CooldownActive \<and>
   map_sum id fst (myCallback env m r c p s) = map_sum id fst (myCallback env m' r c p s) \<and>
   (myCallback env m r c p s = Inr (s', evs) \<longrightarrow>
      (\<exists>res. abi_decode_uint32 c = Some res \<and>
         evs = [DecryptionCompleted r (batchId (decryptionContexts s r)) (sender m)
                  Nationality res])) \<and>
   ((requestVerifyNationality env mr u b q s0 = Inr (s, evs0) \<or>
     requestVerifyVisaStatus env mr u b q s0 = Inr (s, evs0)) \<and>
    myCallback env m (counterRequest s0) c p s = Inr (s', evs) \<longrightarrow>
      (\<exists>res. evs = [DecryptionCompleted (counterRequest s0) b (sender m) Nationality res]))"
proof -
  have gates: "myCallback env m r c p s \<noteq> Inl NotOwner \<and>
      myCallback env m r c p s \<noteq> Inl NotProvider \<and>
      myCallback env m r c p s \<noteq> Inl Paused \<and>
      myCallback env m r c p s \<noteq> Inl CooldownActive"
    by (simp add: myCallback_def Let_def split: option.splits)
  have same: "map_sum id fst (myCallback env m r c p s) = map_sum id fst (myCallback env m' r c p s)"
    by (simp add: myCallback_def Let_def split: option.splits)
  have ev: "\<exists>res. evs = [DecryptionCompleted (counterRequest s0) b (sender m) Nationality res]"
    if "requestVerifyNationality env mr u b q s0 = Inr (s, evs0) \<or>
        requestVerifyVisaStatus env mr u b q s0 = Inr (s, evs0)"
      and "myCallback env m (counterRequest s0) c p s = Inr (s', evs)"
    using request_success [OF that(1)] callback_success [OF that(2)] by auto
  show ?thesis
    using gates same ev callback_success [of env m r c p s s' evs] by blast
qed

theorem C8_witness:
  "myCallback demo_zero_handle \<lparr>sender = 9, timestamp = 400\<rparr> 0 cleartext_one [1]
     (run demo_zero_handle (deployed \<lparr>sender = 1, timestamp = 0\<rparr>) request_trace)
   = Inr ((run demo_zero_handle (deployed \<lparr>sender = 1, timestamp = 0\<rparr>) request_trace)
            \<lparr>decryptionContexts :=
               (decryptionContexts
                  (run demo_zero_handle (deployed \<lparr>sender = 1, timestamp = 0\<rparr>) request_trace))
               (0 := \<lparr>batchId = 1, stateHash = 1, processed = True\<rparr>)\<rparr>,
          [DecryptionCompleted 0 1 9 Nationality 1]) \<and>
   (\<exists>res. abi_decode_uint32 cleartext_one = Some res \<and>
      [DecryptionCompleted 0 1 9 Nationality 1 :: event] =
      [DecryptionCompleted 0
         (batchId (decryptionContexts
            (run demo_zero_handle (deployed \<lparr>sender = 1, timestamp = 0\<rparr>) request_trace) 0))
         (sender \<lparr>sender = 9, timestamp = 400 :: uint256\<rparr>) Nationality res])"
proof -
  let ?s = "run demo_zero_handle (deployed \<lparr>sender = 1, timestamp = 0\<rparr>) request_trace"
  let ?m = "\<lparr>sender = 9, timestamp = 400\<rparr> :: msg"
  have ok: "myCallback demo_zero_handle ?m 0 cleartext_one [1] ?s
      = Inr (?s\<lparr>decryptionContexts :=
                  (decryptionContexts ?s)(0 := \<lparr>batchId = 1, stateHash = 1, processed = True\<rparr>)\<rparr>,
             [DecryptionCompleted 0 1 9 Nationality 1])"
    using request_trace_callback [of ?m] by simp
  from C8_callback_has_no_caller_gate [where env = demo_zero_handle and m = ?m and r = 0
      and c = cleartext_one and p = "[1]" and s = ?s
      and s' = "?s\<lparr>decryptionContexts :=
                  (decryptionContexts ?s)(0 := \<lparr>batchId = 1, stateHash = 1, processed = True\<rparr>)\<rparr>"
      and evs = "[DecryptionCompleted 0 1 9 Nationality 1]"] ok
  have "\<exists>res. abi_decode_uint32 cleartext_one = Some res \<and>
      [DecryptionCompleted 0 1 9 Nationality 1 :: event] =
      [DecryptionCompleted 0 (batchId (decryptionContexts ?s 0)) (sender ?m) Nationality res]"
    by blast
  with ok show ?thesis by blast
qed

lemma run_unsubmitted_blank: "unsubmitted_blank (run env (deployed m0) txs)"
  by (rule run_invariant [where P = unsubmitted_blank])
     (simp_all add: deployed_unsubmitted_blank transact_unsubmitted_blank)

lemma request_open_batch:
  assumes "isProvider s (sender m)" and "\<not> paused s"
      and "respectCooldown m s u (lastDecryptionRequestTime s) = None"
      and "b \<noteq> 0" and "b \<le> currentBatchId s" and "isOpen (batches s b)"
  shows "requestVerifyNationality env m u b q s = Inl BatchNotClosed"
    and "requestVerifyVisaStatus env m u b q s = Inl BatchNotClosed"
  using assms
  by (simp_all add: requestVerifyNationality_def requestVerifyVisaStatus_def guard_def
        onlyProvider_def whenNotPaused_def not_less)

lemma request_no_submission:
  assumes "isProvider s (sender m)" and "\<not> paused s"
      and "respectCooldown m s u (lastDecryptionRequestTime s) = None"
      and "b \<noteq> 0" and "b \<le> currentBatchId s" and "\<not> isOpen (batches s b)"
      and "unsubmitted_blank s" and "\<not> hasSubmittedForBatch s b u"
  shows "requestVerifyNationality env m u b q s = Inl NotInitialized"
    and "requestVerifyVisaStatus env m u b q s = Inl NotInitialized"
  using assms
  by (simp_all add: requestVerifyNationality_def requestVerifyVisaStatus_def guard_def
        onlyProvider_def whenNotPaused_def not_less unsubmitted_blank_def isInitialized_def)

text \<open>
  Claim C6. In every storage the contract can reach, a \<open>requestVerifyNationality\<close> or
  \<open>requestVerifyVisaStatus\<close> call by an authorized provider while the contract is not
  paused, whose cooldown check passes, for a batch id in \<open>1..currentBatchId\<close>: fails with
  \<open>BatchNotClosed\<close> when that batch is open, and fails with \<open>NotInitialized\<close> when the
  batch is not open and no submission is stored for the named user.
\<close>

theorem C6_requests_need_closed_batch_and_submission:
  fixes env m0 txs and s :: storage
  defines "s \<equiv> run env (deployed m0) txs"
  assumes "isProvider s (sender m)" and "\<not> paused s"
      and "respectCooldown m s u (lastDecryptionRequestTime s) = None"
      and "b \<noteq> 0" and "b \<le> currentBatchId s"
  shows "(isOpen (batches s b) \<longrightarrow>
            requestVerifyNationality env m u b q s = Inl BatchNotClosed \<and>
            requestVerifyVisaStatus env m u b q' s = Inl BatchNotClosed) \<and>
         (\<not> isOpen (batches s b) \<and> \<not> hasSubmittedForBatch s b u \<longrightarrow>
            requestVerifyNationality env m u b q s = Inl NotInitialized \<and>
            requestVerifyVisaStatus env m u b q' s = Inl NotInitialized)"
proof -
  have "unsubmitted_blank s"
    unfolding s_def by (rule run_unsubmitted_blank)
  with assms(2-6) show ?thesis
    by (simp add: request_open_batch request_no_submission)
qed

lemma scenario_provider:
  "run env (deployed \<lparr>sender = 1, timestamp = 0\<rparr>) [(\<lparr>sender = 1, timestamp = 5\<rparr>, AddProvider 2)]
   = (deployed \<lparr>sender = 1, timestamp = 0\<rparr>)\<lparr>isProvider := (\<lambda>_. False)(2 := True)\<rparr>"
  by (simp add: deployed_demo eval_defs)

lemma scenario_closed:
  "run env (deployed \<lparr>sender = 1, timestamp = 0\<rparr>)
     [(\<lparr>sender = 1, timestamp = 5\<rparr>, AddProvider 2),
      (\<lparr>sender = 1, timestamp = 50\<rparr>, CloseCurrentBatch)]
   = (deployed \<lparr>sender = 1, timestamp = 0\<rparr>)
       \<lparr>isProvider := (\<lambda>_. False)(2 := True),
        currentBatchId := 2,
        batches := (\<lambda>_. \<lparr>isOpen = False, createdAt = 0, closedAt = 0\<rparr>)
          (1 := \<lparr>isOpen = False, createdAt = 0, closedAt = 50\<rparr>)\<rparr>"
  by (simp add: deployed_demo eval_defs)

theorem C6_witness:
  "requestVerifyNationality demo \<lparr>sender = 2, timestamp = 100\<rparr> 3 1 9
     (run demo (deployed \<lparr>sender = 1, timestamp = 0\<rparr>)
        [(\<lparr>sender = 1, timestamp = 5\<rparr>, AddProvider 2)]) = Inl BatchNotClosed \<and>
   requestVerifyVisaStatus demo \<lparr>sender = 2, timestamp = 100\<rparr> 3 1 9
     (run demo (deployed \<lparr>sender = 1, timestamp = 0\<rparr>)
        [(\<lparr>sender = 1, timestamp = 5\<rparr>, AddProvider 2),
         (\<lparr>sender = 1, timestamp = 50\<rparr>, CloseCurrentBatch)]) = Inl NotInitialized"
proof -
  let ?m = "\<lparr>sender = 2, timestamp = 100\<rparr> :: msg"
  let ?s1 = "run demo (deployed \<lparr>sender = 1, timestamp = 0\<rparr>)
        [(\<lparr>sender = 1, timestamp = 5\<rparr>, AddProvider 2)]"
  let ?s2 = "run demo (deployed \<lparr>sender = 1, timestamp = 0\<rparr>)
        [(\<lparr>sender = 1, timestamp = 5\<rparr>, AddProvider 2),
         (\<lparr>sender = 1, timestamp = 50\<rparr>, CloseCurrentBatch)]"
  have a: "isProvider ?s1 (sender ?m)" "\<not> paused ?s1"
      "respectCooldown ?m ?s1 3 (lastDecryptionRequestTime ?s1) = None"
      "(1 :: uint256) \<noteq> 0" "1 \<le> currentBatchId ?s1" "isOpen (batches ?s1 1)"
    by (simp_all only: scenario_provider) (simp_all add: deployed_demo eval_defs)
  have b: "isProvider ?s2 (sender ?m)" "\<not> paused ?s2"
      "respectCooldown ?m ?s2 3 (lastDecryptionRequestTime ?s2) = None"
      "1 \<le> currentBatchId ?s2" "\<not> isOpen (batches ?s2 1)" "\<not> hasSubmittedForBatch ?s2 1 3"
    by (simp_all only: scenario_closed) (simp_all add: deployed_demo eval_defs)
  from C6_requests_need_closed_batch_and_submission [OF a(1-5), of 9 9] a(6)
  have "requestVerifyNationality demo ?m 3 1 9 ?s1 = Inl BatchNotClosed" by blast
  moreover
  from C6_requests_need_closed_batch_and_submission [OF b(1-3) a(4) b(4), of 9 9] b(5,6)
  have "requestVerifyVisaStatus demo ?m 3 1 9 ?s2 = Inl NotInitialized" by blast
  ultimately show ?thesis ..
qed


lemma respectCooldown_iff:
  "respectCooldown m s u clock = None \<longleftrightarrow>
     unat (clock u) + unat (cooldownSeconds s) \<le> unat (timestamp m)"
proof (cases "checked_add (clock u) (cooldownSeconds s)")
  case None
  then have "2 ^ 256 \<le> unat (clock u) + unat (cooldownSeconds s)"
    by (simp add: checked_add_None)
  moreover have "unat (timestamp m) < 2 ^ 256"
    using unsigned_less [of "timestamp m", where 'a = nat] by simp
  ultimately show ?thesis using None by (simp add: respectCooldown_def)
next
  case (Some d)
  then show ?thesis
    by (simp add: respectCooldown_def word_less_nat_alt checked_add_Some not_less)
qed

lemma respectCooldown_error:
  assumes "unat (timestamp m) < unat (clock u) + unat (cooldownSeconds s)"
  shows "respectCooldown m s u clock =
           Some (if unat (clock u) + unat (cooldownSeconds s) < 2 ^ 256
                 then CooldownActive else Panic 17)"
proof (cases "checked_add (clock u) (cooldownSeconds s)")
  case None
  then have "\<not> unat (clock u) + unat (cooldownSeconds s) < 2 ^ 256"
    by (simp add: checked_add_None)
  with None show ?thesis by (simp add: respectCooldown_def)
next
  case (Some d)
  moreover from Some have "unat (clock u) + unat (cooldownSeconds s) < 2 ^ 256"
    by (simp add: checked_add_def split: if_splits)
  ultimately show ?thesis
    using assms by (simp add: respectCooldown_def word_less_nat_alt checked_add_Some)
qed

lemma respectCooldown_fresh:
  assumes "clock u = 0"
  shows "respectCooldown m s u clock =
           (if timestamp m < cooldownSeconds s then Some CooldownActive else None)"
  using assms by (simp add: respectCooldown_def)

lemma transact_lastSubmissionTime:
  assumes "\<not> (isSubmitNaming u (snd tx) s \<and> \<not> isl (dispatch env (fst tx) (snd tx) s))"
  shows "lastSubmissionTime (transact env s tx) u = lastSubmissionTime s u"
  using assms
  by (cases tx; cases "snd tx")
     (auto simp: transact_def function_defs modifier_defs Let_def
           split: option.splits sum.splits if_splits prod.splits)

lemma transact_lastDecryptionRequestTime:
  assumes "\<not> (isRequestNaming u (snd tx) s \<and> \<not> isl (dispatch env (fst tx) (snd tx) s))"
  shows "lastDecryptionRequestTime (transact env s tx) u = lastDecryptionRequestTime s u"
  using assms
  by (cases tx; cases "snd tx")
     (auto simp: transact_def function_defs modifier_defs Let_def
           split: option.splits sum.splits if_splits prod.splits)

lemma never_submitted:
  "successes env (isSubmitNaming u) s txs = 0 \<Longrightarrow>
   lastSubmissionTime (run env s txs) u = lastSubmissionTime s u"
proof (induction txs arbitrary: s)
  case Nil
  then show ?case by simp
next
  case (Cons tx txs)
  then have "lastSubmissionTime (transact env s tx) u = lastSubmissionTime s u"
    by (intro transact_lastSubmissionTime) (auto split: if_splits)
  with Cons show ?case by simp
qed

lemma never_requested:
  "successes env (isRequestNaming u) s txs = 0 \<Longrightarrow>
   lastDecryptionRequestTime (run env s txs) u = lastDecryptionRequestTime s u"
proof (induction txs arbitrary: s)
  case Nil
  then show ?case by simp
next
  case (Cons tx txs)
  then have "lastDecryptionRequestTime (transact env s tx) u = lastDecryptionRequestTime s u"
    by (intro transact_lastDecryptionRequestTime) (auto split: if_splits)
  with Cons show ?case by simp
qed

lemma deployed_clocks:
  "lastSubmissionTime (deployed m0) u = 0" "lastDecryptionRequestTime (deployed m0) u = 0"
  by (simp_all add: deployed_def constructor_def priv_openNewBatch_def empty_storage_def)

lemma submit_gate:
  "submitPassportData m u n v s =
     (if \<not> isProvider s (sender m) then Inl NotProvider
      else if paused s then Inl Paused
      else case respectCooldown m s u (lastSubmissionTime s) of
             Some e \<Rightarrow> Inl e
           | None \<Rightarrow>
               if \<not> isOpen (batches s (currentBatchId s)) then Inl BatchClosed
               else if hasSubmittedForBatch s (currentBatchId s) u
                 then Inl (ErrorString ''User already submitted for this batch'')
               else if n = 0 \<or> v = 0 then Inl NotInitialized
               else Inr (s\<lparr>userPassportData := (userPassportData s)(currentBatchId s :=
                             (userPassportData s (currentBatchId s))(u :=
                                \<lparr>encryptedNationality = n,
                                 encryptedVisaExpiryTimestamp = v\<rparr>)),
                           hasSubmittedForBatch := (hasSubmittedForBatch s)(currentBatchId s :=
                             (hasSubmittedForBatch s (currentBatchId s))(u := True)),
                           lastSubmissionTime := (lastSubmissionTime s)(u := timestamp m)\<rparr>,
                        [PassportSubmitted u (currentBatchId s)]))"
  by (simp add: submitPassportData_def guard_def onlyProvider_def whenNotPaused_def
        priv_initIfNeeded_def isInitialized_def split: option.splits)

lemma request_gate:
  "requestVerifyNationality env m u b q s =
     (if \<not> isProvider s (sender m) then Inl NotProvider
      else if paused s then Inl Paused
      else case respectCooldown m s u (lastDecryptionRequestTime s) of
             Some e \<Rightarrow> Inl e
           | None \<Rightarrow> guard None (requestVerifyNationality env m u b q s))"
  "requestVerifyVisaStatus env m u b q s =
     (if \<not> isProvider s (sender m) then Inl NotProvider
      else if paused s then Inl Paused
      else case respectCooldown m s u (lastDecryptionRequestTime s) of
             Some e \<Rightarrow> Inl e
           | None \<Rightarrow> guard None (requestVerifyVisaStatus env m u b q s))"
  by (simp_all add: requestVerifyNationality_def requestVerifyVisaStatus_def guard_def
        onlyProvider_def whenNotPaused_def split: option.splits)

text \<open>
  Claim C10 as stated fails for a call the gates in front of the cooldown stop: right after
  deployment the address 3 has taken no action and its clocks are 0, the cooldown is 30, and
  at time 10 a \<open>submitPassportData\<close> or \<open>requestVerifyNationality\<close> naming it and sent by
  the address 5, which is no provider, fails with \<open>NotProvider\<close>; sent by the provider 2
  while the contract is paused, the submission fails with \<open>Paused\<close>. Neither fails with
  \<open>CooldownActive\<close>.
\<close>

theorem C10_counterexample:
  "lastSubmissionTime (deployed \<lparr>sender = 1, timestamp = 0\<rparr>) 3 = 0 \<and>
   lastDecryptionRequestTime (deployed \<lparr>sender = 1, timestamp = 0\<rparr>) 3 = 0 \<and>
   timestamp \<lparr>sender = 5, timestamp = 10\<rparr>
     < cooldownSeconds (deployed \<lparr>sender = 1, timestamp = 0\<rparr>) \<and>
   submitPassportData \<lparr>sender = 5, timestamp = 10\<rparr> 3 7 8
     (deployed \<lparr>sender = 1, timestamp = 0\<rparr>) = Inl NotProvider \<and>
   requestVerifyNationality demo \<lparr>sender = 5, timestamp = 10\<rparr> 3 1 9
     (deployed \<lparr>sender = 1, timestamp = 0\<rparr>) = Inl NotProvider \<and>
   lastSubmissionTime
     (run demo (deployed \<lparr>sender = 1, timestamp = 0\<rparr>)
        [(\<lparr>sender = 1, timestamp = 5\<rparr>, AddProvider 2),
         (\<lparr>sender = 1, timestamp = 6\<rparr>, Pause)]) 3 = 0 \<and>
   submitPassportData \<lparr>sender = 2, timestamp = 10\<rparr> 3 7 8
     (run demo (deployed \<lparr>sender = 1, timestamp = 0\<rparr>)
        [(\<lparr>sender = 1, timestamp = 5\<rparr>, AddProvider 2),
         (\<lparr>sender = 1, timestamp = 6\<rparr>, Pause)]) = Inl Paused"
  by (simp add: deployed_demo eval_defs requestVerifyNationality_def pause_def priv_pause_def)

text \<open>
  Claim C10, amended. An address no successful submission (no successful verification
  request) has named since deployment has the last-action time 0 on that clock. With the
  clock at 0 the cooldown gate \<open>respectCooldown\<close> compares \<open>block.timestamp\<close> with
  \<open>cooldownSeconds\<close> alone: \<open>submitPassportData\<close> and both \<open>requestVerify*\<close> functions
  succeed only when \<open>cooldownSeconds \<le> block.timestamp\<close>; at an earlier timestamp the gate
  answers \<open>CooldownActive\<close> and the call fails, with \<open>NotProvider\<close> when the sender is no
  provider, else with \<open>Paused\<close> when the contract is paused, else with \<open>CooldownActive\<close>,
  although the address has taken no prior action.
\<close>

theorem C10_first_action_waits_for_cooldown:
  "(successes env (isSubmitNaming u) (deployed m0) txs = 0 \<longrightarrow>
      lastSubmissionTime (run env (deployed m0) txs) u = 0) \<and>
   (successes env (isRequestNaming u) (deployed m0) txs = 0 \<longrightarrow>
      lastDecryptionRequestTime (run env (deployed m0) txs) u = 0) \<and>
   (lastSubmissionTime s u = 0 \<longrightarrow>
      (\<not> isl (submitPassportData m u n v s) \<longrightarrow> cooldownSeconds s \<le> timestamp m) \<and>
      (timestamp m < cooldownSeconds s \<longrightarrow>
         respectCooldown m s u (lastSubmissionTime s) = Some CooldownActive \<and>
         submitPassportData m u n v s =
           Inl (if \<not> isProvider s (sender m) then NotProvider
                else if paused s then Paused else CooldownActive) \<and>
         (isProvider s (sender m) \<and> \<not> paused s \<longrightarrow>
            submitPassportData m u n v s = Inl CooldownActive))) \<and>
   (lastDecryptionRequestTime s u = 0 \<longrightarrow>
      (\<not> isl (requestVerifyNationality env m u b q s) \<longrightarrow> cooldownSeconds s \<le> timestamp m) \<and>
      (\<not> isl (requestVerifyVisaStatus env m u b q s) \<longrightarrow> cooldownSeconds s \<le> timestamp m) \<and>
      (timestamp m < cooldownSeconds s \<longrightarrow>
         respectCooldown m s u (lastDecryptionRequestTime s) = Some CooldownActive \<and>
         requestVerifyNationality env m u b q s =
           Inl (if \<not> isProvider s (sender m) then NotProvider
                else if paused s then Paused else CooldownActive) \<and>
         requestVerifyVisaStatus env m u b q s =
           Inl (if \<not> isProvider s (sender m) then NotProvider
                else if paused s then Paused else CooldownActive) \<and>
         (isProvider s (sender m) \<and> \<not> paused s \<longrightarrow>
            requestVerifyNationality env m u b q s = Inl CooldownActive \<and>
            requestVerifyVisaStatus env m u b q s = Inl CooldownActive)))"
proof -
  have a: "successes env (isSubmitNaming u) (deployed m0) txs = 0 \<longrightarrow>
      lastSubmissionTime (run env (deployed m0) txs) u = 0"
    by (simp add: never_submitted deployed_clocks)
  have b: "successes env (isRequestNaming u) (deployed m0) txs = 0 \<longrightarrow>
      lastDecryptionRequestTime (run env (deployed m0) txs) u = 0"
    by (simp add: never_requested deployed_clocks)
  have c: "(\<not> isl (submitPassportData m u n v s) \<longrightarrow> cooldownSeconds s \<le> timestamp m) \<and>
      (timestamp m < cooldownSeconds s \<longrightarrow>
         respectCooldown m s u (lastSubmissionTime s) = Some CooldownActive \<and>
         submitPassportData m u n v s =
           Inl (if \<not> isProvider s (sender m) then NotProvider
                else if paused s then Paused else CooldownActive) \<and>
         (isProvider s (sender m) \<and> \<not> paused s \<longrightarrow>
            submitPassportData m u n v s = Inl CooldownActive))"
    if "lastSubmissionTime s u = 0"
    by (subst (1 2 3) submit_gate)
       (auto simp: respectCooldown_fresh [of "lastSubmissionTime s" u, OF that] not_less)
  have d: "(\<not> isl (requestVerifyNationality env m u b q s) \<longrightarrow> cooldownSeconds s \<le> timestamp m) \<and>
      (\<not> isl (requestVerifyVisaStatus env m u b q s) \<longrightarrow> cooldownSeconds s \<le> timestamp m) \<and>
      (timestamp m < cooldownSeconds s \<longrightarrow>
         respectCooldown m s u (lastDecryptionRequestTime s) = Some CooldownActive \<and>
         requestVerifyNationality env m u b q s =
           Inl (if \<not> isProvider s (sender m) then NotProvider
                else if paused s then Paused else CooldownActive) \<and>
         requestVerifyVisaStatus env m u b q s =
           Inl (if \<not> isProvider s (sender m) then NotProvider
                else if paused s then Paused else CooldownActive) \<and>
         (isProvider s (sender m) \<and> \<not> paused s \<longrightarrow>
            requestVerifyNationality env m u b q s = Inl CooldownActive \<and>
            requestVerifyVisaStatus env m u b q s = Inl CooldownActive))"
    if "lastDecryptionRequestTime s u = 0"
    by (subst (1 2 3) request_gate(1), subst (1 2 3) request_gate(2))
       (auto simp: respectCooldown_fresh [of "lastDecryptionRequestTime s" u, OF that] not_less)
  from a b c d show ?thesis by blast
qed

theorem C10_witness:
  "lastSubmissionTime (run demo (deployed \<lparr>sender = 1, timestamp = 0\<rparr>)
      [(\<lparr>sender = 1, timestamp = 5\<rparr>, AddProvider 2)]) 3 = 0 \<and>
   submitPassportData \<lparr>sender = 2, timestamp = 10\<rparr> 3 7 8
     (run demo (deployed \<lparr>sender = 1, timestamp = 0\<rparr>)
        [(\<lparr>sender = 1, timestamp = 5\<rparr>, AddProvider 2)]) = Inl CooldownActive \<and>
   \<not> isl (submitPassportData \<lparr>sender = 2, timestamp = 30\<rparr> 3 7 8
     (run demo (deployed \<lparr>sender = 1, timestamp = 0\<rparr>)
        [(\<lparr>sender = 1, timestamp = 5\<rparr>, AddProvider 2)])) \<and>
   requestVerifyVisaStatus demo \<lparr>sender = 2, timestamp = 10\<rparr> 3 1 9
     (run demo (deployed \<lparr>sender = 1, timestamp = 0\<rparr>)
        [(\<lparr>sender = 1, timestamp = 5\<rparr>, AddProvider 2)]) = Inl CooldownActive \<and>
   submitPassportData \<lparr>sender = 5, timestamp = 10\<rparr> 3 7 8
     (run demo (deployed \<lparr>sender = 1, timestamp = 0\<rparr>)
        [(\<lparr>sender = 1, timestamp = 5\<rparr>, AddProvider 2)]) = Inl NotProvider"
proof -
  let ?txs = "[(\<lparr>sender = 1, timestamp = 5\<rparr>, AddProvider 2)]"
  let ?s = "run demo (deployed \<lparr>sender = 1, timestamp = 0\<rparr>) ?txs"
  let ?m = "\<lparr>sender = 2, timestamp = 10\<rparr> :: msg"
  let ?m5 = "\<lparr>sender = 5, timestamp = 10\<rparr> :: msg"
  have n: "successes demo (isSubmitNaming 3) (deployed \<lparr>sender = 1, timestamp = 0\<rparr>) ?txs = 0"
      "successes demo (isRequestNaming 3) (deployed \<lparr>sender = 1, timestamp = 0\<rparr>) ?txs = 0"
    by simp_all
  have g: "timestamp ?m < cooldownSeconds ?s" "isProvider ?s (sender ?m)" "\<not> paused ?s"
    by (simp_all only: scenario_provider) (simp_all add: deployed_demo eval_defs)
  have g5: "timestamp ?m5 < cooldownSeconds ?s" "\<not> isProvider ?s (sender ?m5)"
    by (simp_all only: scenario_provider) (simp_all add: deployed_demo eval_defs)
  have ok: "\<not> isl (submitPassportData \<lparr>sender = 2, timestamp = 30\<rparr> 3 7 8 ?s)"
    by (simp only: scenario_provider) (simp add: deployed_demo eval_defs)
  note inst = C10_first_action_waits_for_cooldown [where env = demo and u = 3
      and ?m0.0 = "\<lparr>sender = 1, timestamp = 0\<rparr>" and txs = ?txs and s = ?s and m = ?m
      and n = 7 and v = 8 and b = 1 and q = 9]
  note inst5 = C10_first_action_waits_for_cooldown [where env = demo and u = 3
      and ?m0.0 = "\<lparr>sender = 1, timestamp = 0\<rparr>" and txs = ?txs and s = ?s and m = ?m5
      and n = 7 and v = 8 and b = 1 and q = 9]
  from inst n have z: "lastSubmissionTime ?s 3 = 0" "lastDecryptionRequestTime ?s 3 = 0"
    by blast+
  from inst z g have "submitPassportData ?m 3 7 8 ?s = Inl CooldownActive"
      "requestVerifyVisaStatus demo ?m 3 1 9 ?s = Inl CooldownActive"
    by blast+
  moreover from inst5 z(1) g5(1) have "submitPassportData ?m5 3 7 8 ?s =
      Inl (if \<not> isProvider ?s (sender ?m5) then NotProvider
           else if paused ?s then Paused else CooldownActive)"
    by blast
  with g5(2) have "submitPassportData ?m5 3 7 8 ?s = Inl NotProvider"
    by (simp only: simp_thms if_True)
  ultimately show ?thesis using z ok by blast
qed

lemma scenario_huge_cooldown:
  "run env (deployed \<lparr>sender = 1, timestamp = 0\<rparr>) huge_cooldown_trace
   = (deployed \<lparr>sender = 1, timestamp = 0\<rparr>)
       \<lparr>isProvider := (\<lambda>_. False)(2 := True),
        lastSubmissionTime := (\<lambda>_. 0)(3 := 100),
        cooldownSeconds :=
          115792089237316195423570985008687907853269984665640564039457584007913129639935,
        userPassportData := (\<lambda>_ _. \<lparr>encryptedNationality = 0, encryptedVisaExpiryTimestamp = 0\<rparr>)
          (1 := (\<lambda>_. \<lparr>encryptedNationality = 0, encryptedVisaExpiryTimestamp = 0\<rparr>)
             (3 := \<lparr>encryptedNationality = 7, encryptedVisaExpiryTimestamp = 8\<rparr>)),
        hasSubmittedForBatch := (\<lambda>_ _. False)(1 := (\<lambda>_. False)(3 := True))\<rparr>"
  by (simp add: huge_cooldown_trace_def deployed_demo eval_defs)

text \<open>
  Claim C7 as stated fails when the sum overflows: after \<open>huge_cooldown_trace\<close> the user's
  last submission is at 100 and the cooldown is \<open>2^256 - 1\<close>; at time 200 the action is not yet
  allowed, and the checked addition of the gate reverts with \<open>Panic(0x11)\<close>, not with
  \<open>CooldownActive\<close>.
\<close>

theorem C7_counterexample:
  "unat (timestamp \<lparr>sender = 2, timestamp = 200\<rparr>)
     < unat (lastSubmissionTime
               (run demo (deployed \<lparr>sender = 1, timestamp = 0\<rparr>) huge_cooldown_trace) 3)
       + unat (cooldownSeconds
               (run demo (deployed \<lparr>sender = 1, timestamp = 0\<rparr>) huge_cooldown_trace)) \<and>
   respectCooldown \<lparr>sender = 2, timestamp = 200\<rparr>
     (run demo (deployed \<lparr>sender = 1, timestamp = 0\<rparr>) huge_cooldown_trace) 3
     (lastSubmissionTime
        (run demo (deployed \<lparr>sender = 1, timestamp = 0\<rparr>) huge_cooldown_trace))
     = Some (Panic 17) \<and>
   submitPassportData \<lparr>sender = 2, timestamp = 200\<rparr> 3 9 10
     (run demo (deployed \<lparr>sender = 1, timestamp = 0\<rparr>) huge_cooldown_trace)
     = Inl (Panic 17)"
  by (simp only: scenario_huge_cooldown) (simp add: deployed_demo eval_defs)

text \<open>
  Claim C7, amended. For every address, clock (action kind), time and cooldown, the gate lets
  the action through iff \<open>lastActionTime + cooldownSeconds \<le> now\<close> (the sum taken in the
  natural numbers); otherwise it fails with \<open>CooldownActive\<close> when the sum fits in a
  \<open>uint256\<close>, and with the arithmetic panic when it does not. \<open>setCooldown\<close> called by the
  owner fails with \<open>InvalidCooldown\<close> iff the new value is zero and otherwise stores it (a
  call by anyone else fails with \<open>NotOwner\<close>); the stored value is the one the gate then
  uses for both clocks.
\<close>

theorem C7_cooldown_gate_and_setCooldown:
  "(respectCooldown m s u clock = None \<longleftrightarrow>
      unat (clock u) + unat (cooldownSeconds s) \<le> unat (timestamp m)) \<and>
   (unat (timestamp m) < unat (clock u) + unat (cooldownSeconds s) \<longrightarrow>
      respectCooldown m s u clock =
        Some (if unat (clock u) + unat (cooldownSeconds s) < 2 ^ 256
              then CooldownActive else Panic 17)) \<and>
   (sender m = owner s \<longrightarrow>
      (setCooldown m c s = Inl InvalidCooldown \<longleftrightarrow> c = 0) \<and>
      (c \<noteq> 0 \<longrightarrow>
         setCooldown m c s =
           Inr (s\<lparr>cooldownSeconds := c\<rparr>, [CooldownSet (cooldownSeconds s) c]))) \<and>
   (sender m \<noteq> owner s \<longrightarrow> setCooldown m c s = Inl NotOwner) \<and>
   (setCooldown m c s = Inr (s', evs) \<longrightarrow>
      (respectCooldown m2 s' u2 (lastSubmissionTime s') = None \<longleftrightarrow>
         unat (lastSubmissionTime s u2) + unat c \<le> unat (timestamp m2)) \<and>
      (respectCooldown m2 s' u2 (lastDecryptionRequestTime s') = None \<longleftrightarrow>
         unat (lastDecryptionRequestTime s u2) + unat c \<le> unat (timestamp m2)))"
proof -
  have set: "setCooldown m c s =
      (if sender m \<noteq> owner s then Inl NotOwner
       else if c = 0 then Inl InvalidCooldown
       else Inr (s\<lparr>cooldownSeconds := c\<rparr>, [CooldownSet (cooldownSeconds s) c]))"
    by (simp add: setCooldown_def guard_def onlyOwner_def)
  have after: "(respectCooldown m2 s' u2 (lastSubmissionTime s') = None \<longleftrightarrow>
         unat (lastSubmissionTime s u2) + unat c \<le> unat (timestamp m2)) \<and>
      (respectCooldown m2 s' u2 (lastDecryptionRequestTime s') = None \<longleftrightarrow>
         unat (lastDecryptionRequestTime s u2) + unat c \<le> unat (timestamp m2))"
    if "setCooldown m c s = Inr (s', evs)"
  proof -
    from that have "s' = s\<lparr>cooldownSeconds := c\<rparr>"
      by (auto simp: set split: if_splits)
    then show ?thesis by (simp add: respectCooldown_iff)
  qed
  show ?thesis
    using respectCooldown_iff [of m s u clock] respectCooldown_error [of m clock u s] after
    by (auto simp: set)
qed

theorem C7_witness:
  "respectCooldown \<lparr>sender = 2, timestamp = 200\<rparr>
     (run demo (deployed \<lparr>sender = 1, timestamp = 0\<rparr>) huge_cooldown_trace) 3
     (lastSubmissionTime
        (run demo (deployed \<lparr>sender = 1, timestamp = 0\<rparr>) huge_cooldown_trace))
     = Some (Panic 17) \<and>
   respectCooldown \<lparr>sender = 2, timestamp = 10\<rparr> (deployed \<lparr>sender = 1, timestamp = 0\<rparr>) 3
     (lastSubmissionTime (deployed \<lparr>sender = 1, timestamp = 0\<rparr>)) = Some CooldownActive \<and>
   setCooldown \<lparr>sender = 1, timestamp = 20\<rparr> 60 (deployed \<lparr>sender = 1, timestamp = 0\<rparr>)
     = Inr ((deployed \<lparr>sender = 1, timestamp = 0\<rparr>)\<lparr>cooldownSeconds := 60\<rparr>,
            [CooldownSet 30 60]) \<and>
   setCooldown \<lparr>sender = 2, timestamp = 20\<rparr> 60 (deployed \<lparr>sender = 1, timestamp = 0\<rparr>)
     = Inl NotOwner \<and>
   respectCooldown \<lparr>sender = 2, timestamp = 60\<rparr>
     ((deployed \<lparr>sender = 1, timestamp = 0\<rparr>)\<lparr>cooldownSeconds := 60\<rparr>) 3
     (lastDecryptionRequestTime ((deployed \<lparr>sender = 1, timestamp = 0\<rparr>)\<lparr>cooldownSeconds := 60\<rparr>))
     = None"
proof -
  let ?d = "deployed \<lparr>sender = 1, timestamp = 0\<rparr>"
  let ?h = "run demo ?d huge_cooldown_trace"
  have over: "unat (timestamp \<lparr>sender = 2, timestamp = 200\<rparr>)
      < unat (lastSubmissionTime ?h 3) + unat (cooldownSeconds ?h)"
    "\<not> unat (lastSubmissionTime ?h 3) + unat (cooldownSeconds ?h) < 2 ^ 256"
    by (simp_all only: scenario_huge_cooldown) (simp_all add: deployed_demo eval_defs)
  have early: "unat (timestamp \<lparr>sender = 2, timestamp = 10\<rparr>)
      < unat (lastSubmissionTime ?d 3) + unat (cooldownSeconds ?d)"
    "unat (lastSubmissionTime ?d 3) + unat (cooldownSeconds ?d) < 2 ^ 256"
    "sender \<lparr>sender = 1, timestamp = 20 :: uint256\<rparr> = owner ?d"
    "sender \<lparr>sender = 2, timestamp = 20 :: uint256\<rparr> \<noteq> owner ?d"
    "cooldownSeconds ?d = 30"
    "unat (lastDecryptionRequestTime ?d 3) + unat (60 :: uint256)
       \<le> unat (timestamp \<lparr>sender = 2, timestamp = 60\<rparr>)"
    by (simp_all add: deployed_demo eval_defs)
  from C7_cooldown_gate_and_setCooldown
      [where m = "\<lparr>sender = 2, timestamp = 200\<rparr>" and s = ?h and u = 3
         and clock = "lastSubmissionTime ?h"] over
  have a: "respectCooldown \<lparr>sender = 2, timestamp = 200\<rparr> ?h 3 (lastSubmissionTime ?h)
      = Some (Panic 17)"
    by simp
  from C7_cooldown_gate_and_setCooldown
      [where m = "\<lparr>sender = 2, timestamp = 10\<rparr>" and s = ?d and u = 3
         and clock = "lastSubmissionTime ?d"] early(1,2)
  have b: "respectCooldown \<lparr>sender = 2, timestamp = 10\<rparr> ?d 3 (lastSubmissionTime ?d)
      = Some CooldownActive"
    by simp
  from C7_cooldown_gate_and_setCooldown
      [where m = "\<lparr>sender = 1, timestamp = 20\<rparr>" and s = ?d and c = 60] early(3,5)
  have c: "setCooldown \<lparr>sender = 1, timestamp = 20\<rparr> 60 ?d
      = Inr (?d\<lparr>cooldownSeconds := 60\<rparr>, [CooldownSet 30 60])"
    by simp
  from C7_cooldown_gate_and_setCooldown
      [where m = "\<lparr>sender = 2, timestamp = 20\<rparr>" and s = ?d and c = 60] early(4)
  have d: "setCooldown \<lparr>sender = 2, timestamp = 20\<rparr> 60 ?d = Inl NotOwner"
    by blast
  from C7_cooldown_gate_and_setCooldown
      [where m = "\<lparr>sender = 1, timestamp = 20\<rparr>" and s = ?d and c = 60
         and s' = "?d\<lparr>cooldownSeconds := 60\<rparr>" and evs = "[CooldownSet 30 60]"
         and ?m2.0 = "\<lparr>sender = 2, timestamp = 60\<rparr>" and ?u2.0 = 3] c early(6)
  have e: "respectCooldown \<lparr>sender = 2, timestamp = 60\<rparr> (?d\<lparr>cooldownSeconds := 60\<rparr>) 3
      (lastDecryptionRequestTime (?d\<lparr>cooldownSeconds := 60\<rparr>)) = None"
    by blast
  from a b c d e show ?thesis by blast
qed

text \<open>
  Claim C4 as stated fails: with the cooldown at its default 30, the provider's submission
  for user 3 at time 100 succeeds, and the second submission for the same user in the same
  batch at time 110 fails with \<open>CooldownActive\<close>, not with the duplicate-submission
  failure: the cooldown modifier runs before the body's duplicate check.
\<close>

theorem C4_counterexample:
  "\<not> isl (submitPassportData \<lparr>sender = 2, timestamp = 100\<rparr> 3 7 8
       (run demo (deployed \<lparr>sender = 1, timestamp = 0\<rparr>)
          [(\<lparr>sender = 1, timestamp = 5\<rparr>, AddProvider 2)])) \<and>
   cooldownSeconds
     (run demo (deployed \<lparr>sender = 1, timestamp = 0\<rparr>)
        [(\<lparr>sender = 1, timestamp = 5\<rparr>, AddProvider 2),
         (\<lparr>sender = 2, timestamp = 100\<rparr>, SubmitPassportData 3 7 8)]) = 30 \<and>
   submitPassportData \<lparr>sender = 2, timestamp = 110\<rparr> 3 7 8
     (run demo (deployed \<lparr>sender = 1, timestamp = 0\<rparr>)
        [(\<lparr>sender = 1, timestamp = 5\<rparr>, AddProvider 2),
         (\<lparr>sender = 2, timestamp = 100\<rparr>, SubmitPassportData 3 7 8)]) = Inl CooldownActive"
  by (simp only: scenario_provider scenario_submitted) (simp add: deployed_demo eval_defs)

lemma submit_chain:
  "submitPassportData m u n v s =
     (if \<not> isProvider s (sender m) then Inl NotProvider
      else if paused s then Inl Paused
      else if 2 ^ 256 \<le> unat (lastSubmissionTime s u) + unat (cooldownSeconds s)
        then Inl (Panic 17)
      else if unat (timestamp m) < unat (lastSubmissionTime s u) + unat (cooldownSeconds s)
        then Inl CooldownActive
      else if \<not> isOpen (batches s (currentBatchId s)) then Inl BatchClosed
      else if hasSubmittedForBatch s (currentBatchId s) u
        then Inl (ErrorString ''User already submitted for this batch'')
      else if n = 0 \<or> v = 0 then Inl NotInitialized
      else Inr (s\<lparr>userPassportData := (userPassportData s)(currentBatchId s :=
                    (userPassportData s (currentBatchId s))(u :=
                       \<lparr>encryptedNationality = n, encryptedVisaExpiryTimestamp = v\<rparr>)),
                  hasSubmittedForBatch := (hasSubmittedForBatch s)(currentBatchId s :=
                    (hasSubmittedForBatch s (currentBatchId s))(u := True)),
                  lastSubmissionTime := (lastSubmissionTime s)(u := timestamp m)\<rparr>,
               [PassportSubmitted u (currentBatchId s)]))"
proof (cases "unat (lastSubmissionTime s u) + unat (cooldownSeconds s) \<le> unat (timestamp m)")
  case True
  moreover have "unat (timestamp m) < 2 ^ 256"
    using unsigned_less [of "timestamp m", where 'a = nat] by simp
  ultimately show ?thesis
    using respectCooldown_iff [of m s u "lastSubmissionTime s"]
    by (subst submit_gate) simp
next
  case False
  then show ?thesis
    using respectCooldown_error [of m "lastSubmissionTime s" u s]
    by (subst submit_gate) (simp add: not_le not_less)
qed

text \<open>
  Claim C4, amended. If a provider's \<open>submitPassportData\<close> for user \<open>u\<close> succeeds at time
  \<open>t\<close> (with \<open>t + cooldownSeconds\<close> below \<open>2^256\<close>), then a second submission by a provider
  for \<open>u\<close> in the same batch fails with \<open>CooldownActive\<close> at every time before
  \<open>t + cooldownSeconds\<close>, so at \<open>t + 10\<close> when the cooldown is 30, and fails with the
  duplicate-submission failure at every time from \<open>t + cooldownSeconds\<close> on, whatever the
  payload. A call fails with the failure of the first precondition it violates, in the
  order provider, pause, cooldown (or the panic of its addition), open batch, duplicate,
  initialized handles, and these failures are pairwise distinct.
\<close>

theorem C4_duplicate_after_cooldown:
  assumes "submitPassportData m u n v s = Inr (s1, evs)"
      and "unat (timestamp m) + unat (cooldownSeconds s) < 2 ^ 256"
      and "isProvider s (sender m2)"
  shows "(cooldownSeconds s = 30 \<and> timestamp m2 = timestamp m + 10 \<longrightarrow>
            submitPassportData m2 u n' v' s1 = Inl CooldownActive) \<and>
         (unat (timestamp m2) < unat (timestamp m) + unat (cooldownSeconds s) \<longrightarrow>
            submitPassportData m2 u n' v' s1 = Inl CooldownActive) \<and>
         (unat (timestamp m) + unat (cooldownSeconds s) \<le> unat (timestamp m2) \<longrightarrow>
            submitPassportData m2 u n' v' s1 =
              Inl (ErrorString ''User already submitted for this batch'')) \<and>
         submitPassportData ma ua na va sa =
           (if \<not> isProvider sa (sender ma) then Inl NotProvider
            else if paused sa then Inl Paused
            else if 2 ^ 256 \<le> unat (lastSubmissionTime sa ua) + unat (cooldownSeconds sa)
              then Inl (Panic 17)
            else if unat (timestamp ma)
                    < unat (lastSubmissionTime sa ua) + unat (cooldownSeconds sa)
              then Inl CooldownActive
            else if \<not> isOpen (batches sa (currentBatchId sa)) then Inl BatchClosed
            else if hasSubmittedForBatch sa (currentBatchId sa) ua
              then Inl (ErrorString ''User already submitted for this batch'')
            else if na = 0 \<or> va = 0 then Inl NotInitialized
            else Inr (sa\<lparr>userPassportData := (userPassportData sa)(currentBatchId sa :=
                          (userPassportData sa (currentBatchId sa))(ua :=
                             \<lparr>encryptedNationality = na,
                              encryptedVisaExpiryTimestamp = va\<rparr>)),
                        hasSubmittedForBatch := (hasSubmittedForBatch sa)(currentBatchId sa :=
                          (hasSubmittedForBatch sa (currentBatchId sa))(ua := True)),
                        lastSubmissionTime := (lastSubmissionTime sa)(ua := timestamp ma)\<rparr>,
                     [PassportSubmitted ua (currentBatchId sa)])) \<and>
         distinct [NotProvider, Paused, Panic 17, CooldownActive, BatchClosed,
                   ErrorString ''User already submitted for this batch'', NotInitialized]"
proof -
  from assms(1) have s1: "isProvider s1 = isProvider s" "\<not> paused s1"
      "lastSubmissionTime s1 u = timestamp m" "cooldownSeconds s1 = cooldownSeconds s"
      "isOpen (batches s1 (currentBatchId s1))" "hasSubmittedForBatch s1 (currentBatchId s1) u"
    by (auto simp: submit_chain split: if_splits)
  have early: "submitPassportData m2 u n' v' s1 = Inl CooldownActive"
    if "unat (timestamp m2) < unat (timestamp m) + unat (cooldownSeconds s)"
    using that assms(2,3) s1 by (simp add: submit_chain [of m2 u n' v' s1])
  have late: "submitPassportData m2 u n' v' s1 =
      Inl (ErrorString ''User already submitted for this batch'')"
    if "unat (timestamp m) + unat (cooldownSeconds s) \<le> unat (timestamp m2)"
    using that assms(2,3) s1 by (simp add: submit_chain [of m2 u n' v' s1])
  have ten: "unat (timestamp m2) < unat (timestamp m) + unat (cooldownSeconds s)"
    if "cooldownSeconds s = 30" and "timestamp m2 = timestamp m + 10"
  proof -
    have "unat (timestamp m + 10) = unat (timestamp m) + unat (10 :: uint256)"
      using assms(2) that(1) by (intro unat_add_lem [THEN iffD1]) simp
    then show ?thesis using that by simp
  qed
  show ?thesis
    using early late ten submit_chain [of ma ua na va sa] by simp
qed

theorem C4_witness:
  "submitPassportData \<lparr>sender = 2, timestamp = 110\<rparr> 3 11 12
     (run demo (deployed \<lparr>sender = 1, timestamp = 0\<rparr>)
        [(\<lparr>sender = 1, timestamp = 5\<rparr>, AddProvider 2),
         (\<lparr>sender = 2, timestamp = 100\<rparr>, SubmitPassportData 3 7 8)]) = Inl CooldownActive \<and>
   submitPassportData \<lparr>sender = 2, timestamp = 130\<rparr> 3 11 12
     (run demo (deployed \<lparr>sender = 1, timestamp = 0\<rparr>)
        [(\<lparr>sender = 1, timestamp = 5\<rparr>, AddProvider 2),
         (\<lparr>sender = 2, timestamp = 100\<rparr>, SubmitPassportData 3 7 8)])
     = Inl (ErrorString ''User already submitted for this batch'')"
proof -
  let ?s = "run demo (deployed \<lparr>sender = 1, timestamp = 0\<rparr>)
        [(\<lparr>sender = 1, timestamp = 5\<rparr>, AddProvider 2)]"
  let ?s1 = "run demo (deployed \<lparr>sender = 1, timestamp = 0\<rparr>)
        [(\<lparr>sender = 1, timestamp = 5\<rparr>, AddProvider 2),
         (\<lparr>sender = 2, timestamp = 100\<rparr>, SubmitPassportData 3 7 8)]"
  let ?m = "\<lparr>sender = 2, timestamp = 100\<rparr> :: msg"
  have first: "submitPassportData ?m 3 7 8 ?s = Inr (?s1, [PassportSubmitted 3 1])"
    by (simp only: scenario_provider scenario_submitted) (simp add: deployed_demo eval_defs)
  have h: "unat (timestamp ?m) + unat (cooldownSeconds ?s) < 2 ^ 256"
      "isProvider ?s (sender \<lparr>sender = 2, timestamp = 110 :: uint256\<rparr>)"
      "isProvider ?s (sender \<lparr>sender = 2, timestamp = 130 :: uint256\<rparr>)"
      "cooldownSeconds ?s = 30"
    by (simp_all only: scenario_provider) (simp_all add: deployed_demo eval_defs)
  have t: "timestamp \<lparr>sender = 2 :: address, timestamp = 110 :: uint256\<rparr> = timestamp ?m + 10"
      "unat (timestamp ?m) + unat (cooldownSeconds ?s)
         \<le> unat (timestamp \<lparr>sender = 2 :: address, timestamp = 130 :: uint256\<rparr>)"
    using h(4) by simp_all
  from C4_duplicate_after_cooldown [OF first h(1) h(2), of 11 12] h(4) t(1)
  have a: "submitPassportData \<lparr>sender = 2, timestamp = 110\<rparr> 3 11 12 ?s1 = Inl CooldownActive"
    by blast
  from C4_duplicate_after_cooldown [OF first h(1) h(3), of 11 12] t(2)
  have b: "submitPassportData \<lparr>sender = 2, timestamp = 130\<rparr> 3 11 12 ?s1
      = Inl (ErrorString ''User already submitted for this batch'')"
    by blast
  from a b show ?thesis ..
qed

lemma close_chain:
  "closeCurrentBatch m s =
     (if sender m \<noteq> owner s then Inl NotOwner
      else if \<not> isOpen (batches s (currentBatchId s)) then Inl BatchClosed
      else if 2 ^ 256 \<le> unat (currentBatchId s) + 1 then Inl (Panic 17)
      else Inr (s\<lparr>batches := (batches s)(currentBatchId s :=
                    (batches s (currentBatchId s))\<lparr>isOpen := False, closedAt := timestamp m\<rparr>),
                  currentBatchId := currentBatchId s + 1\<rparr>,
               [BatchClosedEvent (currentBatchId s)]))"
  by (simp add: closeCurrentBatch_def priv_closeBatch_def guard_def onlyOwner_def
        checked_add_def not_less)

lemma open_chain:
  "openNewBatch m s =
     (if sender m \<noteq> owner s then Inl NotOwner
      else if 2 ^ 256 \<le> unat (currentBatchId s) + 1 then Inl (Panic 17)
      else Inr (s\<lparr>currentBatchId := currentBatchId s + 1,
                  batches := (batches s)(currentBatchId s + 1 :=
                    \<lparr>isOpen = True, createdAt = timestamp m, closedAt = 0\<rparr>)\<rparr>,
               [BatchOpened (currentBatchId s + 1)]))"
  by (simp add: openNewBatch_def priv_openNewBatch_def guard_def onlyOwner_def
        checked_add_def not_less Let_def)

lemma unat_succ: "\<not> 2 ^ 256 \<le> unat (a :: uint256) + 1 \<Longrightarrow> unat (a + 1) = unat a + 1"
  using unat_add_lem [of a 1] by simp

lemma transact_batches_frame:
  assumes "snd tx \<noteq> OpenNewBatch" and "snd tx \<noteq> CloseCurrentBatch"
  shows "currentBatchId (transact env s tx) = currentBatchId s \<and>
         batches (transact env s tx) = batches s"
  using assms
  by (cases tx; cases "snd tx")
     (auto simp: transact_def function_defs modifier_defs Let_def
           split: option.splits sum.splits if_splits prod.splits)

lemma transact_only_current_open:
  assumes one: "\<forall>b. isOpen (batches s b) \<longrightarrow> b = currentBatchId s"
      and ok: "isOpenNewBatch (snd tx) \<and> \<not> isl (dispatch env (fst tx) (snd tx) s)
             \<longrightarrow> \<not> isOpen (batches s (currentBatchId s))"
  shows "\<forall>b. isOpen (batches (transact env s tx) b) \<longrightarrow> b = currentBatchId (transact env s tx)"
proof -
  consider (isopen) "snd tx = OpenNewBatch" | (isclose) "snd tx = CloseCurrentBatch"
    | (other) "snd tx \<noteq> OpenNewBatch" "snd tx \<noteq> CloseCurrentBatch"
    by blast
  then show ?thesis
  proof cases
    case isopen
    show ?thesis
    proof (cases "openNewBatch (fst tx) s")
      case (Inl e)
      then have "transact env s tx = s" by (simp add: transact_def isopen)
      with one show ?thesis by simp
    next
      case (Inr r)
      with ok isopen have "\<not> isOpen (batches s (currentBatchId s))" by simp
      with one have none: "\<forall>b. \<not> isOpen (batches s b)" by blast
      from Inr have "transact env s tx =
          s\<lparr>currentBatchId := currentBatchId s + 1,
            batches := (batches s)(currentBatchId s + 1 :=
              \<lparr>isOpen = True, createdAt = timestamp (fst tx), closedAt = 0\<rparr>)\<rparr>"
        by (auto simp: transact_def isopen open_chain split: if_splits)
      with none show ?thesis by simp
    qed
  next
    case isclose
    show ?thesis
    proof (cases "closeCurrentBatch (fst tx) s")
      case (Inl e)
      then have "transact env s tx = s" by (simp add: transact_def isclose)
      with one show ?thesis by simp
    next
      case (Inr r)
      then have "transact env s tx =
          s\<lparr>batches := (batches s)(currentBatchId s :=
               (batches s (currentBatchId s))\<lparr>isOpen := False, closedAt := timestamp (fst tx)\<rparr>),
            currentBatchId := currentBatchId s + 1\<rparr>"
        by (auto simp: transact_def isclose close_chain split: if_splits)
      with one show ?thesis by auto
    qed
  next
    case other
    from transact_batches_frame [OF other, of env s] one show ?thesis by simp
  qed
qed

lemma run_only_current_open:
  assumes "\<forall>b. isOpen (batches s b) \<longrightarrow> b = currentBatchId s"
      and "closes_before_opening env s txs"
  shows "\<forall>b. isOpen (batches (run env s txs) b) \<longrightarrow> b = currentBatchId (run env s txs)"
  using assms
proof (induction txs arbitrary: s)
  case Nil
  then show ?case by simp
next
  case (Cons tx txs)
  from Cons.prems have "\<forall>b. isOpen (batches (transact env s tx) b) \<longrightarrow>
      b = currentBatchId (transact env s tx)"
    by (intro transact_only_current_open) simp_all
  from Cons.IH [OF this] Cons.prems show ?case by simp
qed

lemma deployed_only_current_open:
  "\<forall>b. isOpen (batches (deployed m0) b) \<longrightarrow> b = currentBatchId (deployed m0)"
  by (simp add: deployed_def constructor_def priv_openNewBatch_def empty_storage_def)


lemma openedIds_append: "openedIds (xs @ ys) = openedIds xs @ openedIds ys"
  by (induction xs rule: openedIds.induct) simp_all

lemma dispatch_opened:
  assumes "dispatch env m c s = Inr (s', evs)"
  shows "(openedIds evs = [] \<and> unat (currentBatchId s) \<le> unat (currentBatchId s')) \<or>
         (openedIds evs = [currentBatchId s'] \<and>
          unat (currentBatchId s') = unat (currentBatchId s) + 1)"
  using assms
  by (cases c)
     (auto simp: function_defs modifier_defs Let_def dest!: checked_add_Some
           split: option.splits sum.splits if_splits prod.splits)

lemma emitted_opened:
  "sorted_wrt (<) (openedIds (emitted env s txs)) \<and>
   (\<forall>b \<in> set (openedIds (emitted env s txs)). unat (currentBatchId s) < unat b) \<and>
   unat (currentBatchId s) \<le> unat (currentBatchId (run env s txs))"
proof (induction txs arbitrary: s)
  case Nil
  then show ?case by simp
next
  case (Cons tx txs)
  note IH = Cons.IH [of "transact env s tx"]
  show ?case
  proof (cases "dispatch env (fst tx) (snd tx) s")
    case (Inl e)
    then have "transact env s tx = s" by (simp add: transact_def)
    with IH Inl show ?thesis by simp
  next
    case (Inr r)
    obtain s' evs where r: "r = (s', evs)" by (cases r)
    with Inr have t: "transact env s tx = s'" by (simp add: transact_def)
    from dispatch_opened [OF Inr [unfolded r]] IH
    show ?thesis
      unfolding t
      by (auto simp: Inr r t openedIds_append sorted_wrt_append word_less_nat_alt)
  qed
qed

lemma open_batches_in_range:
  assumes "batches_fresh s" and "isOpen (batches s b)"
  shows "1 \<le> b \<and> b \<le> currentBatchId s"
proof -
  have "\<not> (unat (currentBatchId s) < unat b \<or> b = 0)"
    using assms by (auto simp: batches_fresh_def)
  then have "unat b \<le> unat (currentBatchId s)" and "unat b \<noteq> 0"
    by (simp_all add: unat_eq_zero)
  then have "unat (1 :: uint256) \<le> unat b" and "unat b \<le> unat (currentBatchId s)"
    by simp_all
  then show ?thesis by (simp only: word_le_nat_alt)
qed

lemma run_batches_fresh: "batches_fresh (run env (deployed m0) txs)"
  by (rule run_invariant [where P = batches_fresh])
     (simp_all add: deployed_batches_fresh transact_batches_fresh)

lemma constructor_opened:
  "openedIds (snd (constructor m0)) = [1]" "currentBatchId (deployed m0) = 1"
  by (simp_all add: deployed_def constructor_def priv_openNewBatch_def empty_storage_def)

lemma sorted_wrt_less_distinct: "sorted_wrt (<) (xs :: uint256 list) \<Longrightarrow> distinct xs"
  by (induction xs) auto

text \<open>
  Claim C2, amended. After every trace of transactions from deployment (so after every
  sequence of \<open>openNewBatch\<close> and \<open>closeCurrentBatch\<close> calls), every batch with
  \<open>isOpen = true\<close> has an id in \<open>1..currentBatchId\<close>; when every \<open>openNewBatch\<close> of the
  trace that succeeds was called with the current batch closed, at most one batch is open,
  the one named by \<open>currentBatchId\<close>; and the ids of the batches opened (the constructor's
  batch 1, then those the \<open>BatchOpened\<close> events of the trace report) strictly increase, so
  no id is opened twice.
\<close>

theorem C2_batch_ids_increase:
  "(isOpen (batches (run env (deployed m0) txs) b) \<longrightarrow>
      1 \<le> b \<and> b \<le> currentBatchId (run env (deployed m0) txs)) \<and>
   (closes_before_opening env (deployed m0) txs \<and>
    isOpen (batches (run env (deployed m0) txs) b) \<longrightarrow>
      b = currentBatchId (run env (deployed m0) txs)) \<and>
   sorted_wrt (<) (openedIds (snd (constructor m0) @ emitted env (deployed m0) txs)) \<and>
   distinct (openedIds (snd (constructor m0) @ emitted env (deployed m0) txs))"
proof -
  have s: "sorted_wrt (<) (openedIds (snd (constructor m0) @ emitted env (deployed m0) txs))"
    using emitted_opened [of env "deployed m0" txs]
    by (auto simp: openedIds_append constructor_opened word_less_nat_alt)
  from s have "distinct (openedIds (snd (constructor m0) @ emitted env (deployed m0) txs))"
    by (rule sorted_wrt_less_distinct)
  with s open_batches_in_range [OF run_batches_fresh]
    run_only_current_open [OF deployed_only_current_open]
  show ?thesis by blast
qed

text \<open>
  Claim C2 as stated fails: after deployment, one \<open>openNewBatch\<close> by the owner leaves the
  batches 1 and 2 both open, and one \<open>closeCurrentBatch\<close> instead leaves no batch open.
\<close>

theorem C2_counterexample:
  "isOpen (batches (run demo (deployed \<lparr>sender = 1, timestamp = 0\<rparr>)
             [(\<lparr>sender = 1, timestamp = 10\<rparr>, OpenNewBatch)]) 1) \<and>
   isOpen (batches (run demo (deployed \<lparr>sender = 1, timestamp = 0\<rparr>)
             [(\<lparr>sender = 1, timestamp = 10\<rparr>, OpenNewBatch)]) 2) \<and>
   (\<forall>b. \<not> isOpen (batches (run demo (deployed \<lparr>sender = 1, timestamp = 0\<rparr>)
             [(\<lparr>sender = 1, timestamp = 10\<rparr>, CloseCurrentBatch)]) b))"
  by (simp add: deployed_demo eval_defs)

lemma scenario_open_close_open:
  "run env (deployed \<lparr>sender = 1, timestamp = 0\<rparr>)
     [(\<lparr>sender = 1, timestamp = 10\<rparr>, OpenNewBatch),
      (\<lparr>sender = 1, timestamp = 20\<rparr>, CloseCurrentBatch),
      (\<lparr>sender = 1, timestamp = 30\<rparr>, OpenNewBatch)]
   = (deployed \<lparr>sender = 1, timestamp = 0\<rparr>)
       \<lparr>currentBatchId := 4,
        batches := (\<lambda>_. \<lparr>isOpen = False, createdAt = 0, closedAt = 0\<rparr>)
          (1 := \<lparr>isOpen = True, createdAt = 0, closedAt = 0\<rparr>,
           2 := \<lparr>isOpen = False, createdAt = 10, closedAt = 20\<rparr>,
           4 := \<lparr>isOpen = True, createdAt = 30, closedAt = 0\<rparr>)\<rparr>"
  by (simp add: deployed_demo eval_defs)

lemma emitted_open_close_open:
  "emitted env (deployed \<lparr>sender = 1, timestamp = 0\<rparr>)
     [(\<lparr>sender = 1, timestamp = 10\<rparr>, OpenNewBatch),
      (\<lparr>sender = 1, timestamp = 20\<rparr>, CloseCurrentBatch),
      (\<lparr>sender = 1, timestamp = 30\<rparr>, OpenNewBatch)]
   = [BatchOpened 2, BatchClosedEvent 2, BatchOpened 4]"
  by (simp add: deployed_demo eval_defs)

theorem C2_witness:
  "isOpen (batches (run demo (deployed \<lparr>sender = 1, timestamp = 0\<rparr>)
     [(\<lparr>sender = 1, timestamp = 10\<rparr>, OpenNewBatch),
      (\<lparr>sender = 1, timestamp = 20\<rparr>, CloseCurrentBatch),
      (\<lparr>sender = 1, timestamp = 30\<rparr>, OpenNewBatch)]) 4) \<and>
   4 \<le> currentBatchId (run demo (deployed \<lparr>sender = 1, timestamp = 0\<rparr>)
     [(\<lparr>sender = 1, timestamp = 10\<rparr>, OpenNewBatch),
      (\<lparr>sender = 1, timestamp = 20\<rparr>, CloseCurrentBatch),
      (\<lparr>sender = 1, timestamp = 30\<rparr>, OpenNewBatch)]) \<and>
   openedIds (snd (constructor \<lparr>sender = 1, timestamp = 0\<rparr>) @
     emitted demo (deployed \<lparr>sender = 1, timestamp = 0\<rparr>)
       [(\<lparr>sender = 1, timestamp = 10\<rparr>, OpenNewBatch),
        (\<lparr>sender = 1, timestamp = 20\<rparr>, CloseCurrentBatch),
        (\<lparr>sender = 1, timestamp = 30\<rparr>, OpenNewBatch)]) = [1, 2, 4] \<and>
   sorted_wrt (<) [1, 2, 4 :: uint256] \<and>
   closes_before_opening demo (deployed \<lparr>sender = 1, timestamp = 0\<rparr>)
     [(\<lparr>sender = 1, timestamp = 10\<rparr>, CloseCurrentBatch),
      (\<lparr>sender = 1, timestamp = 20\<rparr>, OpenNewBatch)] \<and>
   isOpen (batches (run demo (deployed \<lparr>sender = 1, timestamp = 0\<rparr>)
     [(\<lparr>sender = 1, timestamp = 10\<rparr>, CloseCurrentBatch),
      (\<lparr>sender = 1, timestamp = 20\<rparr>, OpenNewBatch)]) 3) \<and>
   3 = currentBatchId (run demo (deployed \<lparr>sender = 1, timestamp = 0\<rparr>)
     [(\<lparr>sender = 1, timestamp = 10\<rparr>, CloseCurrentBatch),
      (\<lparr>sender = 1, timestamp = 20\<rparr>, OpenNewBatch)])"
proof -
  let ?txs = "[(\<lparr>sender = 1, timestamp = 10\<rparr>, OpenNewBatch),
      (\<lparr>sender = 1, timestamp = 20\<rparr>, CloseCurrentBatch),
      (\<lparr>sender = 1, timestamp = 30\<rparr>, OpenNewBatch)] :: (msg \<times> call) list"
  let ?txs' = "[(\<lparr>sender = 1, timestamp = 10\<rparr>, CloseCurrentBatch),
      (\<lparr>sender = 1, timestamp = 20\<rparr>, OpenNewBatch)] :: (msg \<times> call) list"
  let ?d = "deployed \<lparr>sender = 1, timestamp = 0\<rparr>"
  have o: "isOpen (batches (run demo ?d ?txs) 4)"
    by (simp only: scenario_open_close_open) simp
  have ids: "openedIds (snd (constructor \<lparr>sender = 1, timestamp = 0\<rparr>) @ emitted demo ?d ?txs)
      = [1, 2, 4]"
    by (simp only: emitted_open_close_open) (simp add: constructor_def priv_openNewBatch_def empty_storage_def)
  have c: "closes_before_opening demo ?d ?txs'" "isOpen (batches (run demo ?d ?txs') 3)"
    by (simp_all add: deployed_demo eval_defs)
  from C2_batch_ids_increase [of demo "\<lparr>sender = 1, timestamp = 0\<rparr>" ?txs 4] o
  have "4 \<le> currentBatchId (run demo ?d ?txs)"
    and "sorted_wrt (<) (openedIds (snd (constructor \<lparr>sender = 1, timestamp = 0\<rparr>) @ emitted demo ?d ?txs))"
    by blast+
  moreover
  from C2_batch_ids_increase [of demo "\<lparr>sender = 1, timestamp = 0\<rparr>" ?txs' 3] c
  have "3 = currentBatchId (run demo ?d ?txs')"
    by blast
  ultimately show ?thesis using o ids c by simp
qed

lemma request_context:
  "requestVerifyNationality env mr u b q s0 = Inr (s, evs0) \<Longrightarrow>
   decryptionContexts s (counterRequest s0) =
     \<lparr>batchId = b,
      stateHash = keccak256_encode env
        [fhe_eq env (encryptedNationality (userPassportData s0 b u)) q] (this env),
      processed = False\<rparr>"
  "requestVerifyVisaStatus env mr u b q s0 = Inr (s, evs0) \<Longrightarrow>
   decryptionContexts s (counterRequest s0) =
     \<lparr>batchId = b,
      stateHash = keccak256_encode env
        [fhe_ge env (encryptedVisaExpiryTimestamp (userPassportData s0 b u)) q] (this env),
      processed = False\<rparr>"
  by (auto simp: requestVerifyNationality_def requestVerifyVisaStatus_def
        requestDecryption_def modifier_defs Let_def priv_hashCiphertexts_def
        split: option.splits if_splits)

text \<open>
  Claim C1 does not hold of the code. \<open>_rebuildStateHashForCallback\<close> hashes the placeholder
  list \<open>[bytes32(0)]\<close> and reads no storage, while the request stored the digest of the
  comparison's result handle. So the callback for a request just issued, with nothing
  changed in between, fails with \<open>StateMismatch\<close> whenever the two digests differ (for a
  collision-free digest: whenever the result handle is not zero), before the proof is
  looked at; and no change of the storage can make the recomputed digest differ.
\<close>

theorem C1_callback_fails_with_nothing_changed:
  "(requestVerifyNationality env mr u b q s0 = Inr (s, evs0) \<and>
    keccak256_encode env [fhe_eq env (encryptedNationality (userPassportData s0 b u)) q]
      (this env) \<noteq> keccak256_encode env [0] (this env) \<longrightarrow>
      myCallback env m (counterRequest s0) c p s = Inl StateMismatch) \<and>
   (requestVerifyVisaStatus env mr u b q s0 = Inr (s, evs0) \<and>
    keccak256_encode env [fhe_ge env (encryptedVisaExpiryTimestamp (userPassportData s0 b u)) q]
      (this env) \<noteq> keccak256_encode env [0] (this env) \<longrightarrow>
      myCallback env m (counterRequest s0) c p s = Inl StateMismatch) \<and>
   priv_rebuildStateHashForCallback env r = keccak256_encode env [0] (this env)"
  by (auto simp: myCallback_def priv_rebuildStateHashForCallback_def priv_hashCiphertexts_def
        dest!: request_context)

lemma request_trace_issue:
  "requestVerifyNationality demo \<lparr>sender = 2, timestamp = 300\<rparr> 3 1 9
     (run demo (deployed \<lparr>sender = 1, timestamp = 0\<rparr>)
        [(\<lparr>sender = 1, timestamp = 5\<rparr>, AddProvider 2),
         (\<lparr>sender = 2, timestamp = 100\<rparr>, SubmitPassportData 3 7 8),
         (\<lparr>sender = 1, timestamp = 200\<rparr>, CloseCurrentBatch)])
   = Inr (run demo (deployed \<lparr>sender = 1, timestamp = 0\<rparr>) request_trace,
          [DecryptionRequested 0 1 3 Nationality 9])"
  by (simp add: request_trace_def deployed_demo request_eval_defs demo_def)

lemma closed_trace_fields:
  "counterRequest (run demo (deployed \<lparr>sender = 1, timestamp = 0\<rparr>)
        [(\<lparr>sender = 1, timestamp = 5\<rparr>, AddProvider 2),
         (\<lparr>sender = 2, timestamp = 100\<rparr>, SubmitPassportData 3 7 8),
         (\<lparr>sender = 1, timestamp = 200\<rparr>, CloseCurrentBatch)]) = 0"
  "encryptedNationality (userPassportData (run demo (deployed \<lparr>sender = 1, timestamp = 0\<rparr>)
        [(\<lparr>sender = 1, timestamp = 5\<rparr>, AddProvider 2),
         (\<lparr>sender = 2, timestamp = 100\<rparr>, SubmitPassportData 3 7 8),
         (\<lparr>sender = 1, timestamp = 200\<rparr>, CloseCurrentBatch)]) 1 3) = 7"
  by (simp_all add: deployed_demo eval_defs)

theorem C1_witness:
  "myCallback demo \<lparr>sender = 9, timestamp = 301\<rparr> 0 cleartext_one [1]
     (run demo (deployed \<lparr>sender = 1, timestamp = 0\<rparr>) request_trace) = Inl StateMismatch"
proof -
  let ?s0 = "run demo (deployed \<lparr>sender = 1, timestamp = 0\<rparr>)
        [(\<lparr>sender = 1, timestamp = 5\<rparr>, AddProvider 2),
         (\<lparr>sender = 2, timestamp = 100\<rparr>, SubmitPassportData 3 7 8),
         (\<lparr>sender = 1, timestamp = 200\<rparr>, CloseCurrentBatch)]"
  have h: "keccak256_encode demo [fhe_eq demo (encryptedNationality (userPassportData ?s0 1 3)) 9]
      (this demo) \<noteq> keccak256_encode demo [0] (this demo)"
    by (simp only: closed_trace_fields) (simp add: demo_def)
  from C1_callback_fails_with_nothing_changed [where env = demo and ?s0.0 = ?s0 and u = 3 and b = 1
      and q = 9 and mr = "\<lparr>sender = 2, timestamp = 300\<rparr>"
      and s = "run demo (deployed \<lparr>sender = 1, timestamp = 0\<rparr>) request_trace"
      and ?evs0.0 = "[DecryptionRequested 0 1 3 Nationality 9]"
      and m = "\<lparr>sender = 9, timestamp = 301\<rparr>" and c = cleartext_one and p = "[1]"]
    request_trace_issue h
  have "myCallback demo \<lparr>sender = 9, timestamp = 301\<rparr> (counterRequest ?s0) cleartext_one [1]
     (run demo (deployed \<lparr>sender = 1, timestamp = 0\<rparr>) request_trace) = Inl StateMismatch"
    by blast
  then show ?thesis by (simp only: closed_trace_fields)
qed


text \<open>While the batch named by \<open>currentBatchId\<close> is not open, only \<open>openNewBatch\<close> changes
  the batch table or the counter.\<close>

lemma transact_gap:
  assumes "\<not> isOpen (batches s (currentBatchId s))" and "\<not> isOpenNewBatch (snd tx)"
  shows "currentBatchId (transact env s tx) = currentBatchId s \<and>
         batches (transact env s tx) = batches s"
  using assms
  by (cases tx; cases "snd tx")
     (auto simp: transact_def function_defs modifier_defs Let_def
           split: option.splits sum.splits if_splits prod.splits)

lemma run_gap:
  assumes "\<not> isOpen (batches s (currentBatchId s))"
      and "\<forall>tx \<in> set txs. \<not> isOpenNewBatch (snd tx)"
  shows "currentBatchId (run env s txs) = currentBatchId s \<and>
         batches (run env s txs) = batches s"
  using assms
proof (induction txs arbitrary: s)
  case Nil
  then show ?case by simp
next
  case (Cons tx txs)
  from transact_gap [of s tx env] Cons.prems
  have g: "currentBatchId (transact env s tx) = currentBatchId s"
      "batches (transact env s tx) = batches s"
    by simp_all
  with Cons.prems have "\<not> isOpen (batches (transact env s tx) (currentBatchId (transact env s tx)))"
    by simp
  from Cons.IH [OF this] Cons.prems g show ?case by simp
qed

lemma transact_reserved:
  assumes "reserved k s"
  shows "reserved k (transact env s tx)"
  using assms unfolding reserved_def
  by (cases tx; cases "snd tx")
     (auto simp: transact_def function_defs modifier_defs Let_def
           dest!: checked_add_Some
           split: option.splits sum.splits if_splits prod.splits)

lemma run_reserved: "reserved k s \<Longrightarrow> reserved k (run env s txs)"
  by (rule run_invariant [where P = "reserved k"]) (simp_all add: transact_reserved)

lemma close_reserves:
  assumes f: "batches_fresh s" and c: "closeCurrentBatch m s = Inr (s1, evs)"
  shows "unat (currentBatchId s1) = unat (currentBatchId s) + 1"
    and "batches s1 (currentBatchId s1) = \<lparr>isOpen = False, createdAt = 0, closedAt = 0\<rparr>"
    and "reserved (currentBatchId s1) s1"
proof -
  from c have n: "\<not> 2 ^ 256 \<le> unat (currentBatchId s) + 1"
    and s1: "s1 = s\<lparr>batches := (batches s)(currentBatchId s :=
                    (batches s (currentBatchId s))\<lparr>isOpen := False, closedAt := timestamp m\<rparr>),
                  currentBatchId := currentBatchId s + 1\<rparr>"
    by (auto simp: close_chain split: if_splits)
  from n have u: "unat (currentBatchId s + 1) = unat (currentBatchId s) + 1"
    by (rule unat_succ)
  then have ne: "currentBatchId s + 1 \<noteq> currentBatchId s"
    by (metis n_not_Suc_n Suc_eq_plus1)
  from f u have "batches s (currentBatchId s + 1) = \<lparr>isOpen = False, createdAt = 0, closedAt = 0\<rparr>"
    by (simp add: batches_fresh_def)
  with ne show b: "batches s1 (currentBatchId s1) = \<lparr>isOpen = False, createdAt = 0, closedAt = 0\<rparr>"
    by (simp add: s1)
  show "unat (currentBatchId s1) = unat (currentBatchId s) + 1"
    using u by (simp add: s1)
  from b show "reserved (currentBatchId s1) s1"
    by (simp add: reserved_def)
qed


text \<open>
  Claim C9 as stated fails in its first part: after \<open>openNewBatch\<close> on the still open
  batch 1, a successful \<open>closeCurrentBatch\<close> closes batch 2 only, and batch 1 is open.
\<close>

theorem C9_counterexample:
  "\<not> isl (closeCurrentBatch \<lparr>sender = 1, timestamp = 20\<rparr>
       (run demo (deployed \<lparr>sender = 1, timestamp = 0\<rparr>)
          [(\<lparr>sender = 1, timestamp = 10\<rparr>, OpenNewBatch)])) \<and>
   isOpen (batches (run demo (deployed \<lparr>sender = 1, timestamp = 0\<rparr>)
          [(\<lparr>sender = 1, timestamp = 10\<rparr>, OpenNewBatch),
           (\<lparr>sender = 1, timestamp = 20\<rparr>, CloseCurrentBatch)]) 1)"
  by (simp add: deployed_demo eval_defs)

text \<open>
  Claim C9, amended. After a successful \<open>closeCurrentBatch\<close> in a reachable storage, and over
  every trace without an \<open>openNewBatch\<close> call: \<open>currentBatchId\<close> is the closed id plus one
  and names a batch that was never created (\<open>isOpen\<close> false, \<open>createdAt\<close> 0); every
  \<open>submitPassportData\<close> fails, with \<open>BatchClosed\<close> once the provider, pause and cooldown
  gates have passed; \<open>closeCurrentBatch\<close> by the owner fails with \<open>BatchClosed\<close>; an
  \<open>openNewBatch\<close> that succeeds opens the id after the reserved one. Over every later
  trace whatsoever the reserved id stays never created, so it is never opened. (Batches
  opened earlier and not closed stay open.)
\<close>

theorem C9_reserved_id_is_skipped:
  fixes env m0 txs and s :: storage
  defines "s \<equiv> run env (deployed m0) txs"
  assumes "closeCurrentBatch m s = Inr (s1, evs)"
      and "\<forall>tx \<in> set txs2. \<not> isOpenNewBatch (snd tx)"
  shows "unat (currentBatchId s1) = unat (currentBatchId s) + 1 \<and>
         currentBatchId (run env s1 txs2) = currentBatchId s1 \<and>
         batches (run env s1 txs2) (currentBatchId s1) =
           \<lparr>isOpen = False, createdAt = 0, closedAt = 0\<rparr> \<and>
         isl (submitPassportData m' u n v (run env s1 txs2)) \<and>
         (isProvider (run env s1 txs2) (sender m') \<and> \<not> paused (run env s1 txs2) \<and>
          respectCooldown m' (run env s1 txs2) u (lastSubmissionTime (run env s1 txs2)) = None
            \<longrightarrow> submitPassportData m' u n v (run env s1 txs2) = Inl BatchClosed) \<and>
         (sender m' = owner (run env s1 txs2) \<longrightarrow>
            closeCurrentBatch m' (run env s1 txs2) = Inl BatchClosed) \<and>
         (openNewBatch m' (run env s1 txs2) = Inr (s3, evs3) \<longrightarrow>
            unat (currentBatchId s3) = unat (currentBatchId s1) + 1 \<and>
            isOpen (batches s3 (currentBatchId s3)) \<and>
            \<not> isOpen (batches s3 (currentBatchId s1))) \<and>
         batches (run env s1 txs3) (currentBatchId s1) =
           \<lparr>isOpen = False, createdAt = 0, closedAt = 0\<rparr>"
proof -
  let ?s2 = "run env s1 txs2"
  have f: "batches_fresh s"
    unfolding s_def by (rule run_batches_fresh)
  note r = close_reserves [OF f assms(2)]
  from r(2) have "\<not> isOpen (batches s1 (currentBatchId s1))" by simp
  from run_gap [OF this assms(3), of env]
  have g: "currentBatchId ?s2 = currentBatchId s1" "batches ?s2 = batches s1"
    by simp_all
  with r(2) have b: "batches ?s2 (currentBatchId ?s2) = \<lparr>isOpen = False, createdAt = 0, closedAt = 0\<rparr>"
    by simp
  then have no: "\<not> isOpen (batches ?s2 (currentBatchId ?s2))" by simp
  have sub: "isl (submitPassportData m' u n v ?s2)"
    using no by (subst submit_gate) (simp split: option.splits)
  have sub': "submitPassportData m' u n v ?s2 = Inl BatchClosed"
    if "isProvider ?s2 (sender m') \<and> \<not> paused ?s2 \<and>
        respectCooldown m' ?s2 u (lastSubmissionTime ?s2) = None"
    using no that by (subst submit_gate) simp
  have cl: "closeCurrentBatch m' ?s2 = Inl BatchClosed" if "sender m' = owner ?s2"
    using no that by (simp add: close_chain)
  have op: "unat (currentBatchId s3) = unat (currentBatchId s1) + 1 \<and>
      isOpen (batches s3 (currentBatchId s3)) \<and> \<not> isOpen (batches s3 (currentBatchId s1))"
    if o: "openNewBatch m' ?s2 = Inr (s3, evs3)"
  proof -
    from o have n: "\<not> 2 ^ 256 \<le> unat (currentBatchId ?s2) + 1"
      and s3: "s3 = ?s2\<lparr>currentBatchId := currentBatchId ?s2 + 1,
                  batches := (batches ?s2)(currentBatchId ?s2 + 1 :=
                    \<lparr>isOpen = True, createdAt = timestamp m', closedAt = 0\<rparr>)\<rparr>"
      by (auto simp: open_chain split: if_splits)
    from unat_succ [OF n] have u: "unat (currentBatchId ?s2 + 1) = unat (currentBatchId ?s2) + 1" .
    then have ne: "currentBatchId ?s2 + 1 \<noteq> currentBatchId ?s2"
      by (metis n_not_Suc_n Suc_eq_plus1)
    have "currentBatchId s3 = currentBatchId ?s2 + 1"
      and "batches s3 = (batches ?s2)(currentBatchId ?s2 + 1 :=
                    \<lparr>isOpen = True, createdAt = timestamp m', closedAt = 0\<rparr>)"
      by (simp_all add: s3)
    with u ne no show ?thesis
      by (simp add: g(1))
  qed
  from run_reserved [OF r(3), of env txs3]
  have last: "batches (run env s1 txs3) (currentBatchId s1) =
      \<lparr>isOpen = False, createdAt = 0, closedAt = 0\<rparr>"
    by (simp add: reserved_def)
  from r(1) g(1) b sub sub' cl op last show ?thesis
    by (simp only: g(1)) blast
qed

lemma scenario_only_closed:
  "closeCurrentBatch \<lparr>sender = 1, timestamp = 20\<rparr> (run demo (deployed \<lparr>sender = 1, timestamp = 0\<rparr>) [])
   = Inr ((deployed \<lparr>sender = 1, timestamp = 0\<rparr>)
            \<lparr>currentBatchId := 2,
             batches := (\<lambda>_. \<lparr>isOpen = False, createdAt = 0, closedAt = 0\<rparr>)
               (1 := \<lparr>isOpen = False, createdAt = 0, closedAt = 20\<rparr>)\<rparr>,
          [BatchClosedEvent 1])"
  by (simp add: deployed_demo eval_defs)

theorem C9_witness:
  "submitPassportData \<lparr>sender = 2, timestamp = 100\<rparr> 3 7 8
     (run demo ((deployed \<lparr>sender = 1, timestamp = 0\<rparr>)
            \<lparr>currentBatchId := 2,
             batches := (\<lambda>_. \<lparr>isOpen = False, createdAt = 0, closedAt = 0\<rparr>)
               (1 := \<lparr>isOpen = False, createdAt = 0, closedAt = 20\<rparr>)\<rparr>)
        [(\<lparr>sender = 1, timestamp = 25\<rparr>, AddProvider 2)]) = Inl BatchClosed \<and>
   batches
     (run demo ((deployed \<lparr>sender = 1, timestamp = 0\<rparr>)
            \<lparr>currentBatchId := 2,
             batches := (\<lambda>_. \<lparr>isOpen = False, createdAt = 0, closedAt = 0\<rparr>)
               (1 := \<lparr>isOpen = False, createdAt = 0, closedAt = 20\<rparr>)\<rparr>)
        [(\<lparr>sender = 1, timestamp = 30\<rparr>, OpenNewBatch)]) 2
     = \<lparr>isOpen = False, createdAt = 0, closedAt = 0\<rparr>"
proof -
  let ?s1 = "(deployed \<lparr>sender = 1, timestamp = 0\<rparr>)
            \<lparr>currentBatchId := 2,
             batches := (\<lambda>_. \<lparr>isOpen = False, createdAt = 0, closedAt = 0\<rparr>)
               (1 := \<lparr>isOpen = False, createdAt = 0, closedAt = 20\<rparr>)\<rparr>"
  let ?txs2 = "[(\<lparr>sender = 1, timestamp = 25\<rparr>, AddProvider 2)] :: (msg \<times> call) list"
  let ?m' = "\<lparr>sender = 2, timestamp = 100\<rparr> :: msg"
  have n: "\<forall>tx \<in> set ?txs2. \<not> isOpenNewBatch (snd tx)" by simp
  have g: "isProvider (run demo ?s1 ?txs2) (sender ?m')" "\<not> paused (run demo ?s1 ?txs2)"
      "respectCooldown ?m' (run demo ?s1 ?txs2) 3 (lastSubmissionTime (run demo ?s1 ?txs2)) = None"
      "currentBatchId ?s1 = 2"
    by (simp_all add: deployed_demo eval_defs)
  note inst = C9_reserved_id_is_skipped [OF scenario_only_closed n, where m' = ?m' and u = 3
      and n = 7 and v = 8 and ?txs3.0 = "[(\<lparr>sender = 1, timestamp = 30\<rparr>, OpenNewBatch)]"]
  from inst g(1-3) have "submitPassportData ?m' 3 7 8 (run demo ?s1 ?txs2) = Inl BatchClosed"
    by blast
  moreover from inst have "batches (run demo ?s1 [(\<lparr>sender = 1, timestamp = 30\<rparr>, OpenNewBatch)])
      (currentBatchId ?s1) = \<lparr>isOpen = False, createdAt = 0, closedAt = 0\<rparr>"
    by blast
  ultimately show ?thesis by (simp only: g(4))
qed

end
